theory Spec2Isabelle
  imports Main
begin

section \<open>Values exchanged with the helper\<close>

text \<open>
  The helper answers with JSON text; \<^verbatim>\<open>JSON.parse\<close> turns it into a value of
  type \<^verbatim>\<open>any\<close>. The batch code reads properties of that value without checking
  its shape, so the model keeps every shape a parsed JSON text can have.
\<close>

datatype json =
    JNull
  | JBool bool
  | JNum int
  | JStr string
  | JArr "json list"
  | JObj "(string \<times> json) list"

text \<open>
  Reading a property of a non-null value: \<^verbatim>\<open>v.key\<close>. \<open>None\<close> is JavaScript's
  \<^verbatim>\<open>undefined\<close>. Only objects produced by \<^verbatim>\<open>JSON.parse\<close> carry the keys read
  here; on \<open>JNull\<close> this is the result of the optional chain \<^verbatim>\<open>v?.key\<close>.
\<close>

fun js_get :: "string \<Rightarrow> json \<Rightarrow> json option" where
  "js_get key (JObj kvs) = map_of kvs key"
| "js_get key _ = None"

text \<open>Truthiness of a JavaScript value, as tested by \<^verbatim>\<open>if (msg?.id)\<close>.\<close>

fun js_truthy :: "json option \<Rightarrow> bool" where
  "js_truthy None = False"
| "js_truthy (Some JNull) = False"
| "js_truthy (Some (JBool b)) = b"
| "js_truthy (Some (JNum n)) = (n \<noteq> 0)"
| "js_truthy (Some (JStr s)) = (s \<noteq> [])"
| "js_truthy (Some (JArr _)) = True"
| "js_truthy (Some (JObj _)) = True"

section \<open>Promises\<close>

text \<open>
  A promise is unsettled, resolved with a value, or rejected with an \<^verbatim>\<open>Error\<close>
  (kept as its message). The \<^verbatim>\<open>resolve\<close> and \<^verbatim>\<open>reject\<close> functions handed to the
  executor only act on an unsettled promise.
\<close>

datatype 'a promise = Unsettled | Resolved 'a | Rejected string

fun settle :: "'a promise \<Rightarrow> 'a promise \<Rightarrow> 'a promise" where
  "settle Unsettled outcome = outcome"
| "settle p outcome = p"

section \<open>MessageBatchItem\<close>

record MessageBatchItem =
  item_id :: string
  attributedBody :: string
  finished :: bool
  item_promise :: "json option promise"

text \<open>The constructor; the uuid comes from \<^verbatim>\<open>generateUuid()\<close>.\<close>

definition new_MessageBatchItem :: "string \<Rightarrow> string \<Rightarrow> MessageBatchItem" where
  "new_MessageBatchItem uuid blob =
     \<lparr>item_id = uuid, attributedBody = blob, finished = False, item_promise = Unsettled\<rparr>"

definition isComplete :: "MessageBatchItem \<Rightarrow> bool" where
  "isComplete i = finished i"

definition complete :: "json option \<Rightarrow> MessageBatchItem \<Rightarrow> MessageBatchItem" where
  "complete v i =
     (if finished i then i
      else i\<lparr>finished := True, item_promise := settle (item_promise i) (Resolved v)\<rparr>)"

definition fail :: "string \<Rightarrow> MessageBatchItem \<Rightarrow> MessageBatchItem" where
  "fail reason i =
     (if finished i then i
      else i\<lparr>finished := True, item_promise := settle (item_promise i) (Rejected reason)\<rparr>)"

text \<open>What an awaiter of \<^verbatim>\<open>waitForCompletion()\<close> observes: the state of the one promise.\<close>

definition waitForCompletion :: "MessageBatchItem \<Rightarrow> json option promise" where
  "waitForCompletion i = item_promise i"

datatype item_call = Complete "json option" | Fail string

fun item_apply :: "item_call \<Rightarrow> MessageBatchItem \<Rightarrow> MessageBatchItem" where
  "item_apply (Complete v) i = complete v i"
| "item_apply (Fail reason) i = fail reason i"

fun item_outcome :: "item_call \<Rightarrow> json option promise" where
  "item_outcome (Complete v) = Resolved v"
| "item_outcome (Fail reason) = Rejected reason"

definition item_calls :: "item_call list \<Rightarrow> MessageBatchItem \<Rightarrow> MessageBatchItem" where
  "item_calls cs i = foldl (\<lambda>acc c. item_apply c acc) i cs"

section \<open>MessageBatch\<close>

datatype MessageBatchStatus = FILLING | PENDING | PROCESSING | COMPLETED | FAILED

text \<open>
  A readiness listener is a callback. \<open>DrainListener\<close> is the closure the dispatcher
  registers in \<^verbatim>\<open>createNewBatch\<close> (it calls \<^verbatim>\<open>processNextBatch()\<close>); \<open>Observer n\<close>
  stands for any other callback passed to \<^verbatim>\<open>addPendingListener\<close>.
\<close>

datatype listener = DrainListener | Observer nat

text \<open>
  The field \<open>timeout\<close> says whether the fill-deadline timer set by the constructor is
  still armed; \<^verbatim>\<open>clearTimeout\<close> and the firing of the timer disarm it.
\<close>

record MessageBatch =
  batch_id :: string
  status :: MessageBatchStatus
  items :: "MessageBatchItem list"
  completedAt :: "int option"
  maxSize :: int
  timeoutMs :: int
  pendingListeners :: "listener list"
  timeout :: bool

definition new_MessageBatch :: "string \<Rightarrow> int \<Rightarrow> int \<Rightarrow> listener list \<Rightarrow> MessageBatch" where
  "new_MessageBatch uuid maxSz tmo ls =
     \<lparr>batch_id = uuid, status = FILLING, items = [], completedAt = None,
      maxSize = maxSz, timeoutMs = tmo, pendingListeners = ls, timeout = True\<rparr>"

definition batch_isFull :: "MessageBatch \<Rightarrow> bool" where
  "batch_isFull b = (int (length (items b)) \<ge> maxSize b)"

text \<open>
  \<^verbatim>\<open>markReadyForProcessing\<close> returns the batch and the listeners it invokes, in order.
  The source clears the timer after the listeners have run; no listener reads the timer,
  so the model disarms it in the same update.
\<close>

definition markReadyForProcessing :: "MessageBatch \<Rightarrow> MessageBatch \<times> listener list" where
  "markReadyForProcessing b =
     (if status b = PENDING then (b, [])
      else (b\<lparr>status := PENDING, timeout := False\<rparr>, pendingListeners b))"

definition addItem :: "MessageBatchItem \<Rightarrow> MessageBatch \<Rightarrow> MessageBatch \<times> listener list" where
  "addItem item b =
     (let b' = b\<lparr>items := items b @ [item]\<rparr>
      in if batch_isFull b' then markReadyForProcessing b' else (b', []))"

text \<open>The callback of the constructor's \<^verbatim>\<open>setTimeout\<close>; a cleared timer does not fire.\<close>

definition timeout_fires :: "MessageBatch \<Rightarrow> MessageBatch \<times> listener list" where
  "timeout_fires b =
     (if timeout b then markReadyForProcessing (b\<lparr>timeout := False\<rparr>) else (b, []))"

definition addPendingListener :: "listener \<Rightarrow> MessageBatch \<Rightarrow> MessageBatch" where
  "addPendingListener l b = b\<lparr>pendingListeners := pendingListeners b @ [l]\<rparr>"

definition removeAllPendingListeners :: "MessageBatch \<Rightarrow> MessageBatch" where
  "removeAllPendingListeners b = b\<lparr>pendingListeners := []\<rparr>"

definition rejectIncompleteItems :: "string \<Rightarrow> MessageBatch \<Rightarrow> MessageBatch" where
  "rejectIncompleteItems reason b =
     b\<lparr>items := map (\<lambda>item. if \<not> isComplete item then fail reason item else item) (items b)\<rparr>"

definition batch_flush :: "string \<Rightarrow> MessageBatch \<Rightarrow> MessageBatch" where
  "batch_flush error b = removeAllPendingListeners (rejectIncompleteItems error b)"

definition default_flush_error :: string where
  "default_flush_error = ''Batch was flushed''"

definition noResponseErr :: string where
  "noResponseErr = ''No response from Helper Service''"

subsection \<open>process\<close>

text \<open>
  \<^verbatim>\<open>this.items.find(i => i.id === item.id)\<close> followed by \<^verbatim>\<open>batchItem.complete(...)\<close>:
  the first item with that id is completed, the others are left alone.
\<close>

fun complete_found :: "string \<Rightarrow> json option \<Rightarrow> MessageBatchItem list \<Rightarrow> MessageBatchItem list" where
  "complete_found k v [] = []"
| "complete_found k v (i # rest) =
     (if item_id i = k then complete v i # rest else i # complete_found k v rest)"

text \<open>
  One turn of the loop over the response entries. Reading \<^verbatim>\<open>item.id\<close> on \<^verbatim>\<open>null\<close>
  throws a TypeError (\<open>None\<close>). An id that is missing or not a string is strictly equal
  to no item id, so \<^verbatim>\<open>find\<close> returns nothing.
\<close>

fun resolve_entry :: "json \<Rightarrow> MessageBatchItem list \<Rightarrow> MessageBatchItem list option" where
  "resolve_entry JNull its = None"
| "resolve_entry entry its =
     (case js_get ''id'' entry of
        Some (JStr k) \<Rightarrow> Some (complete_found k (js_get ''body'' entry) its)
      | _ \<Rightarrow> Some its)"

text \<open>
  The loop: the items as the loop left them, and whether it threw. Items completed
  before a throw stay completed.
\<close>

fun resolve_entries :: "json list \<Rightarrow> MessageBatchItem list \<Rightarrow> MessageBatchItem list \<times> bool" where
  "resolve_entries [] its = (its, False)"
| "resolve_entries (entry # rest) its =
     (case resolve_entry entry its of
        None \<Rightarrow> (its, True)
      | Some its' \<Rightarrow> resolve_entries rest its')"

text \<open>
  \<^verbatim>\<open>result?.data ?? []\<close> as the sequence the \<^verbatim>\<open>for ... of\<close> walks: \<open>None\<close> when the
  value is not iterable (TypeError). A string is iterable, one single-character string
  at a time.
\<close>

definition data_entries :: "json \<Rightarrow> json list option" where
  "data_entries result =
     (case js_get ''data'' result of
        None \<Rightarrow> Some []
      | Some JNull \<Rightarrow> Some []
      | Some (JArr entries) \<Rightarrow> Some entries
      | Some (JStr s) \<Rightarrow> Some (map (\<lambda>c. JStr [c]) s)
      | Some _ \<Rightarrow> None)"

definition process_start :: "MessageBatch \<Rightarrow> MessageBatch" where
  "process_start b = b\<lparr>status := PROCESSING\<rparr>"

text \<open>
  The \<^verbatim>\<open>try\<close> block once the awaited helper call has settled: \<open>Inl ex\<close> when the call
  threw, \<open>Inr result\<close> when it returned. The result is the batch and \<^verbatim>\<open>finalStatus\<close>.
\<close>

definition process_try :: "string + json \<Rightarrow> MessageBatch \<Rightarrow> MessageBatch \<times> MessageBatchStatus" where
  "process_try outcome b =
     (case outcome of
        Inl ex \<Rightarrow> (b, FAILED)
      | Inr result \<Rightarrow>
          (case data_entries result of
             None \<Rightarrow> (b, FAILED)
           | Some entries \<Rightarrow>
               (case resolve_entries entries (items b) of
                  (its, threw) \<Rightarrow> (b\<lparr>items := its\<rparr>, if threw then FAILED else COMPLETED))))"

text \<open>The batch after \<^verbatim>\<open>rejectIncompleteItems(noResponseErr)\<close>, before the last two assignments.\<close>

definition process_rejected :: "string + json \<Rightarrow> MessageBatch \<Rightarrow> MessageBatch" where
  "process_rejected outcome b = rejectIncompleteItems noResponseErr (fst (process_try outcome b))"

definition process_finish :: "string + json \<Rightarrow> int \<Rightarrow> MessageBatch \<Rightarrow> MessageBatch" where
  "process_finish outcome now b =
     (process_rejected outcome b)\<lparr>completedAt := Some now, status := snd (process_try outcome b)\<rparr>"

text \<open>The whole of \<^verbatim>\<open>process()\<close>, from the call to the settling of its promise.\<close>

definition process :: "string + json \<Rightarrow> int \<Rightarrow> MessageBatch \<Rightarrow> MessageBatch" where
  "process outcome now b = process_finish outcome now (process_start b)"

section \<open>UnarchiverBatcher\<close>

record UnarchiverBatcher =
  batches :: "MessageBatch list"
  maxBatchSize :: int
  batchIntervalMs :: int
  maxBatchCache :: int

text \<open>The constructor with the defaults of the class; \<open>None\<close> is an absent option.\<close>

definition new_UnarchiverBatcher :: "int option \<Rightarrow> int option \<Rightarrow> int option \<Rightarrow> UnarchiverBatcher" where
  "new_UnarchiverBatcher cfgSize cfgInterval cfgCache =
     \<lparr>batches = [],
      maxBatchSize = (case cfgSize of None \<Rightarrow> 1000 | Some n \<Rightarrow> n),
      batchIntervalMs = (case cfgInterval of None \<Rightarrow> 10 | Some n \<Rightarrow> n),
      maxBatchCache = (case cfgCache of None \<Rightarrow> 5 | Some n \<Rightarrow> n)\<rparr>"

definition isProcessing :: "UnarchiverBatcher \<Rightarrow> bool" where
  "isProcessing d = list_ex (\<lambda>b. status b = PROCESSING) (batches d)"

definition isIdle :: "UnarchiverBatcher \<Rightarrow> bool" where
  "isIdle d = (\<not> isProcessing d)"

definition isFull :: "UnarchiverBatcher \<Rightarrow> bool" where
  "isFull d = (int (length (batches d)) \<ge> maxBatchCache d)"

definition getNextPendingBatch :: "UnarchiverBatcher \<Rightarrow> MessageBatch option" where
  "getNextPendingBatch d = find (\<lambda>b. status b = PENDING) (batches d)"

definition hasPendingBatches :: "UnarchiverBatcher \<Rightarrow> bool" where
  "hasPendingBatches d = (getNextPendingBatch d \<noteq> None)"

definition findBatch :: "string \<Rightarrow> UnarchiverBatcher \<Rightarrow> MessageBatch option" where
  "findBatch uuid d = find (\<lambda>b. batch_id b = uuid) (batches d)"

definition isBatchFinished :: "MessageBatch \<Rightarrow> bool" where
  "isBatchFinished b = (status b = COMPLETED \<or> status b = FAILED)"

text \<open>
  A batch object found with \<^verbatim>\<open>find\<close> is mutated in place: in the list, the first
  element that satisfies the predicate is replaced by its updated self.
\<close>

fun update_first :: "('a \<Rightarrow> bool) \<Rightarrow> ('a \<Rightarrow> 'a) \<Rightarrow> 'a list \<Rightarrow> 'a list" where
  "update_first P f [] = []"
| "update_first P f (x # xs) = (if P x then f x # xs else x # update_first P f xs)"

text \<open>
  \<^verbatim>\<open>now - batch.completedAt\<close>: a \<^verbatim>\<open>null\<close> operand of the subtraction counts as 0.
\<close>

definition completedAt_num :: "MessageBatch \<Rightarrow> int" where
  "completedAt_num b = (case completedAt b of None \<Rightarrow> 0 | Some t \<Rightarrow> t)"

text \<open>\<open>now\<close> is the reading of \<^verbatim>\<open>new Date().getTime()\<close>.\<close>

definition pruneByAge :: "int \<Rightarrow> int \<Rightarrow> UnarchiverBatcher \<Rightarrow> UnarchiverBatcher" where
  "pruneByAge msSinceCompletion now d =
     d\<lparr>batches := filter (\<lambda>b. isBatchFinished b \<and> now - completedAt_num b > msSinceCompletion)
                           (batches d)\<rparr>"

text \<open>The loop of \<^verbatim>\<open>pruneBatches\<close> over the remaining thresholds, with its \<^verbatim>\<open>break\<close>.\<close>

fun prune_tries :: "int list \<Rightarrow> int \<Rightarrow> UnarchiverBatcher \<Rightarrow> UnarchiverBatcher" where
  "prune_tries [] now d = d"
| "prune_tries (tryMs # rest) now d =
     (let d' = pruneByAge tryMs now d
      in if \<not> isFull d' then d' else prune_tries rest now d')"

definition pruneBatches :: "int \<Rightarrow> UnarchiverBatcher \<Rightarrow> UnarchiverBatcher" where
  "pruneBatches now d = prune_tries [30000, 10000, 5000, 0] now d"

text \<open>
  \<^verbatim>\<open>processNextBatch\<close> up to its first suspension: it returns early, or it calls
  \<^verbatim>\<open>batch.process()\<close>, which sets the status and then waits for the helper. What
  follows the wait is \<open>process_finish\<close> on that batch, and after a pause of
  \<^verbatim>\<open>batchIntervalMs\<close> the call \<^verbatim>\<open>processNextBatch(true)\<close>.
\<close>

definition processNextBatch :: "bool \<Rightarrow> int \<Rightarrow> UnarchiverBatcher \<Rightarrow> UnarchiverBatcher" where
  "processNextBatch wasProcessing now d =
     (let batch = getNextPendingBatch d
      in if wasProcessing \<and> batch = None then (if isFull d then pruneBatches now d else d)
         else if (isProcessing d \<and> \<not> wasProcessing) \<or> batch = None then d
         else d\<lparr>batches := update_first (\<lambda>b. status b = PENDING) process_start (batches d)\<rparr>)"

text \<open>A listener invoked by a batch; only the dispatcher's own closure acts on the dispatcher.\<close>

fun run_listener :: "int \<Rightarrow> listener \<Rightarrow> UnarchiverBatcher \<Rightarrow> UnarchiverBatcher" where
  "run_listener now DrainListener d = processNextBatch False now d"
| "run_listener now (Observer n) d = d"

definition run_listeners :: "int \<Rightarrow> listener list \<Rightarrow> UnarchiverBatcher \<Rightarrow> UnarchiverBatcher" where
  "run_listeners now ls d = foldl (\<lambda>acc l. run_listener now l acc) d ls"

definition createNewBatch :: "string \<Rightarrow> UnarchiverBatcher \<Rightarrow> MessageBatch \<times> UnarchiverBatcher" where
  "createNewBatch uuid d =
     (let batch = new_MessageBatch uuid (maxBatchSize d) (batchIntervalMs d) [DrainListener]
      in (batch, d\<lparr>batches := batches d @ [batch]\<rparr>))"

text \<open>
  \<^verbatim>\<open>getNextAvailableBatch\<close>: the batch returned and the dispatcher afterwards.
  \<open>uuid\<close> is the id a new batch would get.
\<close>

definition getNextAvailableBatch :: "string \<Rightarrow> UnarchiverBatcher \<Rightarrow> MessageBatch \<times> UnarchiverBatcher" where
  "getNextAvailableBatch uuid d =
     (case find (\<lambda>b. status b = FILLING) (batches d) of
        None \<Rightarrow> createNewBatch uuid d
      | Some batch \<Rightarrow> (batch, d))"

text \<open>
  \<^verbatim>\<open>add\<close>: the id of the batch returned (\<open>None\<close> for \<^verbatim>\<open>null\<close>) and the dispatcher
  afterwards. A falsy message is \<open>None\<close>. No statement on this path throws. The batch
  returned by \<^verbatim>\<open>getNextAvailableBatch\<close> is the first FILLING batch of the list, and
  \<^verbatim>\<open>addItem\<close> mutates it there.
\<close>

definition add :: "MessageBatchItem option \<Rightarrow> string \<Rightarrow> int \<Rightarrow> UnarchiverBatcher
                     \<Rightarrow> string option \<times> UnarchiverBatcher" where
  "add message uuid now d =
     (case message of
        None \<Rightarrow> (None, d)
      | Some item \<Rightarrow>
          (let (batch, d1) = getNextAvailableBatch uuid d;
               (batch', ls) = addItem item batch;
               d2 = d1\<lparr>batches := update_first (\<lambda>b. status b = FILLING) (\<lambda>_. batch') (batches d1)\<rparr>
           in (Some (batch_id batch), run_listeners now ls d2)))"

text \<open>
  \<^verbatim>\<open>flush\<close>: the dispatcher afterwards, and the batch objects as the call left them
  (callers still hold their items).
\<close>

definition flush :: "UnarchiverBatcher \<Rightarrow> UnarchiverBatcher \<times> MessageBatch list" where
  "flush d =
     (d\<lparr>batches := []\<rparr>,
      map (\<lambda>b. if \<not> isBatchFinished b then batch_flush default_flush_error b else b) (batches d))"

text \<open>All items held by the batches of a dispatcher.\<close>

definition all_items :: "UnarchiverBatcher \<Rightarrow> MessageBatchItem list" where
  "all_items d = concat (map items (batches d))"

subsection \<open>The dispatcher over time\<close>

text \<open>
  All code runs on one event loop, so the life of a dispatcher is a sequence of turns.
  Besides the dispatcher object the world holds the batch objects that have left the cache
  (\<open>orphans\<close>: their timers, their helper calls and their items live on), the number of
  \<^verbatim>\<open>processNextBatch\<close> calls asleep in \<^verbatim>\<open>waitMs(batchIntervalMs)\<close>, and the record of
  every listener call made by \<^verbatim>\<open>markReadyForProcessing\<close>, as the id of the batch and the
  listener (\<open>notified\<close>). Batch objects are told apart by their ids.
\<close>

record world =
  batcher :: UnarchiverBatcher
  orphans :: "MessageBatch list"
  sleeping :: nat
  notified :: "(string \<times> listener) list"

definition new_world :: "UnarchiverBatcher \<Rightarrow> world" where
  "new_world d = \<lparr>batcher = d, orphans = [], sleeping = 0, notified = []\<rparr>"

text \<open>Every batch object of the world.\<close>

definition objs :: "world \<Rightarrow> MessageBatch list" where
  "objs w = batches (batcher w) @ orphans w"

datatype event =
    EvAdd string string string int
  | EvFillDeadline string int
  | EvHelperReturn string "string + json" int
  | EvIntervalElapsed int
  | EvFlush

text \<open>The batches of the list \<open>earlier\<close> whose ids are not in the list \<open>later\<close>.\<close>

definition left_cache :: "MessageBatch list \<Rightarrow> MessageBatch list \<Rightarrow> MessageBatch list" where
  "left_cache earlier later = filter (\<lambda>b. batch_id b \<notin> set (map batch_id later)) earlier"

text \<open>The listener calls that \<^verbatim>\<open>add\<close> makes through \<^verbatim>\<open>addItem\<close>.\<close>

definition add_invoked :: "MessageBatchItem \<Rightarrow> string \<Rightarrow> UnarchiverBatcher \<Rightarrow> (string \<times> listener) list" where
  "add_invoked item uuid d =
     (let (batch, d1) = getNextAvailableBatch uuid d
      in map (Pair (batch_id batch)) (snd (addItem item batch)))"

text \<open>The fill-deadline timer of the cached batch \<open>uuid\<close> fires.\<close>

definition fill_deadline :: "string \<Rightarrow> int \<Rightarrow> UnarchiverBatcher \<Rightarrow> UnarchiverBatcher" where
  "fill_deadline uuid now d =
     (case find (\<lambda>b. batch_id b = uuid \<and> timeout b) (batches d) of
        None \<Rightarrow> d
      | Some batch \<Rightarrow>
          (let (batch', ls) = timeout_fires batch;
               d1 = d\<lparr>batches := update_first (\<lambda>b. batch_id b = uuid \<and> timeout b) (\<lambda>_. batch') (batches d)\<rparr>
           in run_listeners now ls d1))"

definition fill_deadline_invoked :: "string \<Rightarrow> UnarchiverBatcher \<Rightarrow> (string \<times> listener) list" where
  "fill_deadline_invoked uuid d =
     (case find (\<lambda>b. batch_id b = uuid \<and> timeout b) (batches d) of
        None \<Rightarrow> []
      | Some batch \<Rightarrow> map (Pair (batch_id batch)) (snd (timeout_fires batch)))"

text \<open>
  The fill-deadline timer of a batch that has left the cache fires: the batch becomes
  ready and its listeners, if it still has any, run on the dispatcher.
\<close>

definition orphan_deadline :: "string \<Rightarrow> int \<Rightarrow> world \<Rightarrow> world" where
  "orphan_deadline uuid now w =
     (case find (\<lambda>b. batch_id b = uuid \<and> timeout b) (orphans w) of
        None \<Rightarrow> w
      | Some batch \<Rightarrow>
          (let (batch', ls) = timeout_fires batch
           in w\<lparr>orphans := update_first (\<lambda>b. batch_id b = uuid \<and> timeout b) (\<lambda>_. batch') (orphans w),
                batcher := run_listeners now ls (batcher w),
                notified := notified w @ map (Pair (batch_id batch)) ls\<rparr>))"

text \<open>The helper call of the cached batch \<open>uuid\<close> settles and \<^verbatim>\<open>process()\<close> runs to its end.\<close>

definition helper_returns :: "string \<Rightarrow> string + json \<Rightarrow> int \<Rightarrow> UnarchiverBatcher \<Rightarrow> UnarchiverBatcher" where
  "helper_returns uuid outcome now d =
     d\<lparr>batches := update_first (\<lambda>b. batch_id b = uuid \<and> status b = PROCESSING)
                                (process_finish outcome now) (batches d)\<rparr>"

text \<open>
  One turn. \<open>isEmpty\<close> is the helper of \<^verbatim>\<open>@server/helpers/utils\<close>.
  \<^item> \<open>EvAdd\<close> is the call made by \<^verbatim>\<open>AttributedBodyTransformer\<close>: for an empty blob it
    returns at once; otherwise a new item is built from the blob (with a fresh id) and
    handed to \<^verbatim>\<open>add\<close>. The third argument is the id a new batch would get.
  \<^item> \<open>EvFillDeadline\<close>: the armed timer of the batch of that id fires.
  \<^item> \<open>EvHelperReturn\<close>: the helper call of the PROCESSING batch of that id settles,
    \<^verbatim>\<open>process()\<close> runs to its end, and the drain pass that awaited it goes to sleep.
  \<^item> \<open>EvIntervalElapsed\<close>: one sleeping drain pass wakes and calls
    \<^verbatim>\<open>processNextBatch(true)\<close>; the batches it prunes become orphans.
  \<^item> \<open>EvFlush\<close>: \<^verbatim>\<open>flush()\<close>; the batches of the cache become orphans.
\<close>

fun step :: "(string \<Rightarrow> bool) \<Rightarrow> world \<Rightarrow> event \<Rightarrow> world" where
  "step isEmpty w (EvAdd item_uuid blob uuid now) =
     (if isEmpty blob then w
      else w\<lparr>batcher := snd (add (Some (new_MessageBatchItem item_uuid blob)) uuid now (batcher w)),
             notified := notified w @ add_invoked (new_MessageBatchItem item_uuid blob) uuid (batcher w)\<rparr>)"
| "step isEmpty w (EvFillDeadline uuid now) =
     (if list_ex (\<lambda>b. batch_id b = uuid \<and> timeout b) (batches (batcher w))
      then w\<lparr>batcher := fill_deadline uuid now (batcher w),
             notified := notified w @ fill_deadline_invoked uuid (batcher w)\<rparr>
      else orphan_deadline uuid now w)"
| "step isEmpty w (EvHelperReturn uuid outcome now) =
     (if list_ex (\<lambda>b. batch_id b = uuid \<and> status b = PROCESSING) (batches (batcher w))
      then w\<lparr>batcher := helper_returns uuid outcome now (batcher w), sleeping := Suc (sleeping w)\<rparr>
      else if list_ex (\<lambda>b. batch_id b = uuid \<and> status b = PROCESSING) (orphans w)
      then w\<lparr>orphans := update_first (\<lambda>b. batch_id b = uuid \<and> status b = PROCESSING)
                                       (process_finish outcome now) (orphans w),
             sleeping := Suc (sleeping w)\<rparr>
      else w)"
| "step isEmpty w (EvIntervalElapsed now) =
     (case sleeping w of
        0 \<Rightarrow> w
      | Suc n \<Rightarrow>
          w\<lparr>batcher := processNextBatch True now (batcher w),
            orphans := orphans w @ left_cache (batches (batcher w))
                                              (batches (processNextBatch True now (batcher w))),
            sleeping := n\<rparr>)"
| "step isEmpty w EvFlush =
     w\<lparr>batcher := fst (flush (batcher w)), orphans := orphans w @ snd (flush (batcher w))\<rparr>"

definition run :: "(string \<Rightarrow> bool) \<Rightarrow> event list \<Rightarrow> world \<Rightarrow> world" where
  "run isEmpty evs w = foldl (step isEmpty) w evs"


definition processing_count :: "UnarchiverBatcher \<Rightarrow> nat" where
  "processing_count d = length (filter (\<lambda>b. status b = PROCESSING) (batches d))"

section \<open>UnarchiveBatcher, the earlier dispatcher\<close>

text \<open>
  Of the earlier class, \<^verbatim>\<open>add\<close> and \<^verbatim>\<open>pruneBatches\<close> (with its other exit test) are
  modelled; \<^verbatim>\<open>isFull\<close>, \<^verbatim>\<open>pruneByAge\<close> and \<^verbatim>\<open>getNextAvailableBatch\<close> read as in
  \<open>UnarchiverBatcher\<close>. Its field \<^verbatim>\<open>maxBatches\<close> is \<open>maxBatchCache\<close> here, the messages
  it stores are not inspected, and the listener it gives a new batch plays no part in
  \<^verbatim>\<open>add\<close>.
\<close>

fun UnarchiveBatcher_prune_tries :: "int list \<Rightarrow> int \<Rightarrow> UnarchiverBatcher \<Rightarrow> UnarchiverBatcher" where
  "UnarchiveBatcher_prune_tries [] now d = d"
| "UnarchiveBatcher_prune_tries (tryMs # rest) now d =
     (let d' = pruneByAge tryMs now d
      in if int (length (batches d')) \<le> maxBatchCache d' then d'
         else UnarchiveBatcher_prune_tries rest now d')"

definition UnarchiveBatcher_pruneBatches :: "int \<Rightarrow> UnarchiverBatcher \<Rightarrow> UnarchiverBatcher" where
  "UnarchiveBatcher_pruneBatches now d = UnarchiveBatcher_prune_tries [30000, 10000, 5000, 0] now d"

text \<open>
  \<^verbatim>\<open>add\<close> of the earlier class: \<open>Inl\<close> is the message of the error thrown, \<open>Inr\<close> the
  id of the batch returned. The drain pass it schedules with \<^verbatim>\<open>setTimeout\<close> runs in a
  later turn.
\<close>

definition UnarchiveBatcher_push :: "MessageBatchItem \<Rightarrow> string \<Rightarrow> UnarchiverBatcher
                                       \<Rightarrow> (string + string) \<times> UnarchiverBatcher" where
  "UnarchiveBatcher_push message uuid d =
     (let (batch, d1) = getNextAvailableBatch uuid d
      in (Inr (batch_id batch),
          d1\<lparr>batches := update_first (\<lambda>b. status b = FILLING)
                                       (\<lambda>b. b\<lparr>items := items b @ [message]\<rparr>) (batches d1)\<rparr>))"

definition UnarchiveBatcher_add :: "MessageBatchItem \<Rightarrow> string \<Rightarrow> int \<Rightarrow> UnarchiverBatcher
                                      \<Rightarrow> (string + string) \<times> UnarchiverBatcher" where
  "UnarchiveBatcher_add message uuid now d =
     (if isFull d
      then (let d' = UnarchiveBatcher_pruneBatches now d
            in if isFull d' then (Inl ''Batcher is full'', d')
               else UnarchiveBatcher_push message uuid d')
      else UnarchiveBatcher_push message uuid d)"

section \<open>SwiftHelperService\<close>

record TaskData =
  task_id :: string
  task_isComplete :: bool
  task_promise :: "json option promise"

text \<open>The \<^verbatim>\<open>resolve\<close> and \<^verbatim>\<open>reject\<close> wrappers that \<^verbatim>\<open>createNewTask\<close> stores in a task.\<close>

definition task_resolve :: "json option \<Rightarrow> TaskData \<Rightarrow> TaskData" where
  "task_resolve val t = t\<lparr>task_isComplete := True, task_promise := settle (task_promise t) (Resolved val)\<rparr>"

definition task_reject :: "string \<Rightarrow> TaskData \<Rightarrow> TaskData" where
  "task_reject reason t = t\<lparr>task_isComplete := True, task_promise := settle (task_promise t) (Rejected reason)\<rparr>"

text \<open>
  \<open>currentData\<close> is the buffer variable that the stdout handler of the first evolution
  closes over.
\<close>

record SwiftHelperService =
  tasks :: "TaskData list"
  currentData :: string

definition createNewTask :: "string \<Rightarrow> SwiftHelperService \<Rightarrow> SwiftHelperService" where
  "createNewTask uuid s =
     s\<lparr>tasks := tasks s @ [\<lparr>task_id = uuid, task_isComplete = False, task_promise = Unsettled\<rparr>]\<rparr>"

text \<open>\<^verbatim>\<open>resolveTask\<close> and \<^verbatim>\<open>rejectTask\<close> of the first evolution, which drop the entry.\<close>

definition resolveTask :: "string \<Rightarrow> json option \<Rightarrow> SwiftHelperService \<Rightarrow> SwiftHelperService" where
  "resolveTask uuid val s =
     s\<lparr>tasks := filter (\<lambda>t. task_id t \<noteq> uuid)
                         (update_first (\<lambda>t. task_id t = uuid) (task_resolve val) (tasks s))\<rparr>"

definition rejectTask :: "string \<Rightarrow> string \<Rightarrow> SwiftHelperService \<Rightarrow> SwiftHelperService" where
  "rejectTask uuid error s =
     s\<lparr>tasks := filter (\<lambda>t. task_id t \<noteq> uuid)
                         (update_first (\<lambda>t. task_id t = uuid) (task_reject error) (tasks s))\<rparr>"

text \<open>The timer that \<^verbatim>\<open>sendMessage\<close> starts for a task, when it fires.\<close>

definition task_timeout :: "TaskData \<Rightarrow> TaskData" where
  "task_timeout t = (if task_isComplete t then t else task_reject ''Task timed out'' t)"

definition sendMessage_timeout :: "string \<Rightarrow> SwiftHelperService \<Rightarrow> SwiftHelperService" where
  "sendMessage_timeout uuid s =
     s\<lparr>tasks := update_first (\<lambda>t. task_id t = uuid) task_timeout (tasks s)\<rparr>"

text \<open>\<^verbatim>\<open>String.prototype.split\<close> on a one-character separator.\<close>

fun split_on :: "char \<Rightarrow> string \<Rightarrow> string list" where
  "split_on sep [] = [[]]"
| "split_on sep (c # cs) =
     (if c = sep then [] # split_on sep cs
      else (case split_on sep cs of
              [] \<Rightarrow> [[c]]
            | piece # pieces \<Rightarrow> (c # piece) # pieces))"

definition newline :: char where
  "newline = CHR 0x0A"

text \<open>
  What both stdout handlers do with a parsed record: \<open>pick\<close> chooses the value the task
  is resolved with. An id that is not a string is strictly equal to no task id.
\<close>

definition resolve_record :: "(json \<Rightarrow> json option) \<Rightarrow> json \<Rightarrow> SwiftHelperService \<Rightarrow> SwiftHelperService" where
  "resolve_record pick msg s =
     (if js_truthy (js_get ''id'' msg)
      then (case js_get ''id'' msg of
              Some (JStr k) \<Rightarrow>
                s\<lparr>tasks := update_first (\<lambda>t. task_id t = k) (task_resolve (pick msg)) (tasks s)\<rparr>
            | _ \<Rightarrow> s)
      else s)"

text \<open>
  The stdout handler of the first evolution. \<open>isEmpty\<close> is the helper of
  \<^verbatim>\<open>@server/helpers/utils\<close>; \<open>parse\<close> is \<^verbatim>\<open>JSON.parse\<close>, \<open>None\<close> when it throws (the
  handler catches and logs). Only the first line of the split is looked at.
\<close>

definition on_stdout_data :: "(string option \<Rightarrow> bool) \<Rightarrow> (string \<Rightarrow> json option) \<Rightarrow> string
                                \<Rightarrow> SwiftHelperService \<Rightarrow> SwiftHelperService" where
  "on_stdout_data isEmpty parse output s =
     (let cur = currentData s @ output
      in if newline \<notin> set cur then s\<lparr>currentData := cur\<rparr>
         else (let item = split_on newline cur;
                   s1 = s\<lparr>currentData := last item\<rparr>;
                   first = (case butlast item of [] \<Rightarrow> None | line # _ \<Rightarrow> Some line)
               in if isEmpty first then s1
                  else (case first of
                          None \<Rightarrow> s1
                        | Some line \<Rightarrow>
                            (case parse line of
                               None \<Rightarrow> s1
                             | Some msg \<Rightarrow> resolve_record Some msg s1))))"

text \<open>The stdout handler of the second evolution: each chunk is parsed as it comes.\<close>

definition on_stdout_data2 :: "(string \<Rightarrow> json option) \<Rightarrow> string \<Rightarrow> SwiftHelperService \<Rightarrow> SwiftHelperService" where
  "on_stdout_data2 parse output s =
     (case parse output of
        None \<Rightarrow> s
      | Some msg \<Rightarrow> resolve_record (js_get ''data'') msg s)"

section \<open>ObjCHelperService\<close>

text \<open>
  What \<^verbatim>\<open>bulkDeserializeAttributedBody\<close> calls outside this repository's sources. Each
  call that can throw returns a sum, \<open>Inl\<close> with the message of the error.
\<close>

record helper_env =
  resources :: string
  isNotEmpty :: "string \<Rightarrow> bool"
  toBase64 :: "string \<Rightarrow> string + string"
  stringify :: "(string \<times> string) list \<Rightarrow> string + string"
  execShellCommand :: "string \<Rightarrow> string + string"
  parseJSON :: "string \<Rightarrow> string + json"

text \<open>The loop that collects \<^verbatim>\<open>{id, payload}\<close> for every item with a non-empty body.\<close>

fun build_msgs :: "helper_env \<Rightarrow> MessageBatchItem list \<Rightarrow> string + (string \<times> string) list" where
  "build_msgs env [] = Inr []"
| "build_msgs env (i # rest) =
     (if isNotEmpty env (attributedBody i)
      then (case toBase64 env (attributedBody i) of
              Inl ex \<Rightarrow> Inl ex
            | Inr payload \<Rightarrow>
                (case build_msgs env rest of
                   Inl ex \<Rightarrow> Inl ex
                 | Inr msgs \<Rightarrow> Inr ((item_id i, payload) # msgs)))
      else build_msgs env rest)"

text \<open>\<^verbatim>\<open>s.indexOf(pat)\<close>, counted from position \<open>k\<close> of the whole string; -1 when absent.\<close>

fun indexOf_from :: "nat \<Rightarrow> string \<Rightarrow> string \<Rightarrow> int" where
  "indexOf_from k pat [] = (if pat = [] then int k else - 1)"
| "indexOf_from k pat (c # cs) =
     (if take (length pat) (c # cs) = pat then int k else indexOf_from (Suc k) pat cs)"

definition indexOf :: "string \<Rightarrow> string \<Rightarrow> int" where
  "indexOf pat s = indexOf_from 0 pat s"

text \<open>\<^verbatim>\<open>s.substring(start)\<close>: a negative start counts as 0, one past the end as the end.\<close>

definition substring :: "int \<Rightarrow> string \<Rightarrow> string" where
  "substring start s = drop (nat start) s"

definition helperPath :: "helper_env \<Rightarrow> string" where
  "helperPath env = resources env @ ''/bluebubblesObjcHelper''"

text \<open>The body of the \<^verbatim>\<open>try\<close> block: \<open>Inl\<close> when a statement in it throws.\<close>

definition bulk_try :: "helper_env \<Rightarrow> MessageBatchItem list \<Rightarrow> string + json" where
  "bulk_try env bodies =
     (case build_msgs env bodies of
        Inl ex \<Rightarrow> Inl ex
      | Inr msgs \<Rightarrow>
          (case stringify env msgs of
             Inl ex \<Rightarrow> Inl ex
           | Inr payload \<Rightarrow>
               (case execShellCommand env (helperPath env @ [CHR '' '', CHR 0x27] @ payload @ [CHR 0x27]) of
                  Inl ex \<Rightarrow> Inl ex
                | Inr data \<Rightarrow> parseJSON env (substring (indexOf ''] '' data + 2) data))))"

text \<open>
  The function: \<open>Inl\<close> would be an exception that leaves it (a rejected promise). The
  \<^verbatim>\<open>catch\<close> logs and returns \<^verbatim>\<open>null\<close>.
\<close>

definition bulkDeserializeAttributedBody :: "helper_env \<Rightarrow> MessageBatchItem list \<Rightarrow> string + json" where
  "bulkDeserializeAttributedBody env bodies =
     (case bulk_try env bodies of
        Inl ex \<Rightarrow> Inr JNull
      | Inr json \<Rightarrow> Inr json)"

text \<open>\<^verbatim>\<open>process()\<close> of a batch with this service as the helper.\<close>

definition process_with_service :: "helper_env \<Rightarrow> int \<Rightarrow> MessageBatch \<Rightarrow> MessageBatch" where
  "process_with_service env now b = process (bulkDeserializeAttributedBody env (items b)) now b"

text \<open>A response entry \<^verbatim>\<open>{id, body}\<close> and a response \<^verbatim>\<open>{data: [...]}\<close> of such entries.\<close>

definition response_entry :: "string \<times> json \<Rightarrow> json" where
  "response_entry e = JObj [(''id'', JStr (fst e)), (''body'', snd e)]"

definition response :: "(string \<times> json) list \<Rightarrow> json" where
  "response es = JObj [(''data'', JArr (map response_entry es))]"

text \<open>
  The outcome of one item of a processed batch, given the answered ids and their bodies
  in the order of the response: an item that is already terminal stays as it is, an
  answered one is completed with the body of the first entry for its id, any other is
  failed with the no-response error.
\<close>

definition item_resolution :: "(string \<times> json) list \<Rightarrow> MessageBatchItem \<Rightarrow> MessageBatchItem" where
  "item_resolution es i =
     (if finished i then i
      else (case map_of es (item_id i) of
              Some body \<Rightarrow> i\<lparr>finished := True, item_promise := settle (item_promise i) (Resolved (Some body))\<rparr>
            | None \<Rightarrow> i\<lparr>finished := True, item_promise := settle (item_promise i) (Rejected noResponseErr)\<rparr>))"

section \<open>Notions used in the statements\<close>

text \<open>
  How one batch object may change over a turn whose listener calls are \<open>calls\<close>: it keeps
  its id, it does not go back to FILLING, an armed timer still means FILLING, it gains no
  listener, and if it leaves FILLING then each listener it has was called.
\<close>

definition evolves :: "(string \<times> listener) list \<Rightarrow> MessageBatch \<Rightarrow> MessageBatch \<Rightarrow> bool" where
  "evolves calls x y =
     (batch_id y = batch_id x
      \<and> (status x \<noteq> FILLING \<longrightarrow> status y \<noteq> FILLING)
      \<and> ((timeout x \<longrightarrow> status x = FILLING) \<longrightarrow> (timeout y \<longrightarrow> status y = FILLING))
      \<and> set (pendingListeners y) \<subseteq> set (pendingListeners x)
      \<and> (distinct (pendingListeners x) \<longrightarrow> distinct (pendingListeners y))
      \<and> (status x = FILLING \<and> status y \<noteq> FILLING \<longrightarrow>
           (\<forall>l \<in> set (pendingListeners y). (batch_id y, l) \<in> set calls)))"


text \<open>
  An item is consistent when its flag and its promise agree. A cached batch is
  consistent when its items are and, once COMPLETED or FAILED, all of them are terminal.
\<close>

definition item_ok :: "MessageBatchItem \<Rightarrow> bool" where
  "item_ok i = (finished i = (item_promise i \<noteq> Unsettled))"

definition batch_ok :: "MessageBatch \<Rightarrow> bool" where
  "batch_ok b = (list_all item_ok (items b) \<and> (isBatchFinished b \<longrightarrow> list_all finished (items b)))"

definition cache_ok :: "UnarchiverBatcher \<Rightarrow> bool" where
  "cache_ok d = list_all batch_ok (batches d)"

text \<open>
  Whether the loop of \<^verbatim>\<open>process()\<close> walks the value returned by the helper without an
  exception: the data can be iterated and no entry is \<^verbatim>\<open>null\<close>.
\<close>

definition iterates_cleanly :: "json \<Rightarrow> bool" where
  "iterates_cleanly result =
     (case data_entries result of None \<Rightarrow> False | Some entries \<Rightarrow> JNull \<notin> set entries)"

text \<open>
  An environment in which the helper program prints, after its log prefix, a JSON object
  whose data field is an object keyed by item id instead of a list; \<open>''KEYED''\<close> stands
  for that text.
\<close>

definition keyed_env :: helper_env where
  "keyed_env =
     \<lparr>resources = ''/res'',
      isNotEmpty = (\<lambda>blob. blob \<noteq> []),
      toBase64 = Inr,
      stringify = (\<lambda>msgs. Inr ''{}''),
      execShellCommand = (\<lambda>cmd. Inr ''[log] KEYED''),
      parseJSON = (\<lambda>text. if text = ''KEYED''
                           then Inr (JObj [(''data'', JObj [(''i1'', JStr ''decoded'')])])
                           else Inl ''SyntaxError'')\<rparr>"

text \<open>An environment in which the helper program cannot be run.\<close>

definition broken_env :: helper_env where
  "broken_env =
     \<lparr>resources = ''/res'',
      isNotEmpty = (\<lambda>blob. blob \<noteq> []),
      toBase64 = Inr,
      stringify = (\<lambda>msgs. Inr ''{}''),
      execShellCommand = (\<lambda>cmd. Inl ''ENOENT''),
      parseJSON = (\<lambda>text. Inl ''SyntaxError'')\<rparr>"

text \<open>
  A parser for the examples of the stdout handlers: the line \<open>''L1''\<close>, with or without
  its newline, is the record \<^verbatim>\<open>{"id": "t1", "data": []}\<close>; anything else does not parse.
\<close>

definition parse_L1 :: "string \<Rightarrow> json option" where
  "parse_L1 text =
     (if text = ''L1'' \<or> text = ''L1'' @ [newline]
      then Some (JObj [(''id'', JStr ''t1''), (''data'', JArr [])])
      else None)"

definition isEmpty_line :: "string option \<Rightarrow> bool" where
  "isEmpty_line line = (line = None \<or> line = Some [])"

text \<open>For the runs of the examples, a blob is empty when it has no bytes.\<close>

definition isEmpty_blob :: "string \<Rightarrow> bool" where
  "isEmpty_blob blob = (blob = [])"

text \<open>An environment in which the helper program prints text that is not JSON.\<close>

definition garbled_env :: helper_env where
  "garbled_env =
     \<lparr>resources = ''/res'',
      isNotEmpty = (\<lambda>blob. blob \<noteq> []),
      toBase64 = Inr,
      stringify = (\<lambda>msgs. Inr ''{}''),
      execShellCommand = (\<lambda>cmd. Inr ''[log] GARBLED''),
      parseJSON = (\<lambda>text. Inl ''SyntaxError'')\<rparr>"

text \<open>What a flush makes of one item.\<close>

definition flushed_item :: "MessageBatchItem \<Rightarrow> MessageBatchItem" where
  "flushed_item i =
     (if finished i then i else i\<lparr>finished := True, item_promise := Rejected default_flush_error\<rparr>)"

section \<open>Properties of MessageBatchItem\<close>

lemma item_apply_finished: "finished i \<Longrightarrow> item_apply c i = i"
  by (cases c) (simp_all add: complete_def fail_def)

lemma item_calls_finished: "finished i \<Longrightarrow> item_calls cs i = i"
  unfolding item_calls_def
  by (induction cs) (simp_all add: item_apply_finished)

lemma item_apply_new:
  "item_apply c (new_MessageBatchItem uuid blob) =
     \<lparr>item_id = uuid, attributedBody = blob, finished = True, item_promise = item_outcome c\<rparr>"
  by (cases c) (simp_all add: complete_def fail_def new_MessageBatchItem_def)

text \<open>
  C6. On a work item, the first \<^verbatim>\<open>complete\<close> or \<^verbatim>\<open>fail\<close> call makes it terminal and
  settles its promise with that call's outcome; whatever calls follow leave the item as
  the first call left it, so every awaiter of \<^verbatim>\<open>waitForCompletion\<close> sees that one
  outcome.
\<close>

theorem item_first_call_wins:
  "item_calls (c # cs) (new_MessageBatchItem uuid blob) = item_apply c (new_MessageBatchItem uuid blob)
   \<and> finished (item_calls (c # cs) (new_MessageBatchItem uuid blob))
   \<and> waitForCompletion (item_calls (c # cs) (new_MessageBatchItem uuid blob)) = item_outcome c"
proof -
  let ?first = "item_apply c (new_MessageBatchItem uuid blob)"
  have fin: "finished ?first" by (simp add: item_apply_new)
  have "item_calls (c # cs) (new_MessageBatchItem uuid blob) = item_calls cs ?first"
    by (simp add: item_calls_def)
  also have "\<dots> = ?first" using fin by (rule item_calls_finished)
  finally have eq: "item_calls (c # cs) (new_MessageBatchItem uuid blob) = ?first" .
  show ?thesis
    unfolding eq by (simp add: item_apply_new waitForCompletion_def)
qed

lemma fail_finished: "finished (fail reason i)"
  by (simp add: fail_def)

lemma rejectIncompleteItems_items:
  "items (rejectIncompleteItems reason b) = map (fail reason) (items b)"
  by (simp add: rejectIncompleteItems_def isComplete_def fail_def)

section \<open>Lists updated in place\<close>

lemma find_Some_props: "find P xs = Some x \<Longrightarrow> x \<in> set xs \<and> P x"
  by (induction xs) (auto split: if_splits)

lemma find_None_iff_ex: "(find P xs = None) = (\<not> list_ex P xs)"
  by (induction xs) simp_all

lemma update_first_found:
  "find P xs = Some a \<Longrightarrow> update_first P (\<lambda>_. f a) xs = update_first P f xs"
  by (induction xs) (auto split: if_splits)




lemma update_first_length [simp]: "length (update_first P f xs) = length xs"
  by (induction xs) simp_all

lemma update_first_all:
  "list_all P xs \<Longrightarrow> (\<And>x. x \<in> set xs \<Longrightarrow> Q x \<Longrightarrow> P (f x)) \<Longrightarrow> list_all P (update_first Q f xs)"
  by (induction xs) simp_all

section \<open>Properties of process\<close>

lemma complete_found_ids [simp]: "map item_id (complete_found k v its) = map item_id its"
  by (induction its) (simp_all add: complete_def)

lemma complete_found_distinct:
  "distinct (map item_id its) \<Longrightarrow>
   complete_found k v its = map (\<lambda>i. if item_id i = k then complete v i else i) its"
proof (induction its)
  case Nil
  show ?case by simp
next
  case (Cons i rest)
  show ?case
  proof (cases "item_id i = k")
    case True
    with Cons.prems have "\<forall>j \<in> set rest. item_id j \<noteq> k" by (auto simp: image_iff)
    then have "map (\<lambda>i. if item_id i = k then complete v i else i) rest = rest"
      by (simp add: map_idI)
    with True show ?thesis by simp
  next
    case False
    with Cons show ?thesis by simp
  qed
qed

lemma resolve_entry_response [simp]:
  "resolve_entry (response_entry e) its = Some (complete_found (fst e) (Some (snd e)) its)"
  by (simp add: response_entry_def)

lemma item_resolution_step:
  "item_resolution es (if item_id i = k then complete (Some v) i else i) = item_resolution ((k, v) # es) i"
  by (simp add: item_resolution_def complete_def)

text \<open>The loop followed by \<^verbatim>\<open>rejectIncompleteItems\<close>, on a well-formed response.\<close>

lemma resolve_entries_response:
  "distinct (map item_id its) \<Longrightarrow>
   snd (resolve_entries (map response_entry es) its) = False
   \<and> map (\<lambda>item. if \<not> isComplete item then fail noResponseErr item else item)
         (fst (resolve_entries (map response_entry es) its))
     = map (item_resolution es) its"
proof (induction es arbitrary: its)
  case Nil
  show ?case
    by (simp add: item_resolution_def isComplete_def fail_def)
next
  case (Cons e es)
  obtain k v where e: "e = (k, v)" by (cases e)
  let ?its = "complete_found k (Some v) its"
  have d: "distinct (map item_id ?its)" using Cons.prems by simp
  have shape: "?its = map (\<lambda>i. if item_id i = k then complete (Some v) i else i) its"
    using Cons.prems by (rule complete_found_distinct)
  have "map (item_resolution es) ?its = map (item_resolution ((k, v) # es)) its"
    unfolding shape by (simp add: item_resolution_step del: map_eq_conv cong: map_cong)
  with Cons.IH [OF d] show ?case by (simp add: e)
qed

lemma item_resolution_finished: "finished (item_resolution es i)"
  by (simp add: item_resolution_def split: option.splits)

lemma data_entries_response [simp]: "data_entries (response es) = Some (map response_entry es)"
  by (simp add: response_def data_entries_def)

text \<open>
  C3. A batch whose items have distinct ids is processed with a response that answers
  some of them. Every item that was not terminal ends completed with the body of the
  first entry that carries its id, or failed with the no-response error when no entry
  does (\<open>item_resolution\<close>); all items are terminal after \<^verbatim>\<open>rejectIncompleteItems\<close>,
  while the status is still PROCESSING; then the status becomes COMPLETED.
\<close>

theorem process_partial_response:
  assumes "distinct (map item_id (items b))"
  shows "items (process_rejected (Inr (response es)) (process_start b)) = map (item_resolution es) (items b)
       \<and> status (process_rejected (Inr (response es)) (process_start b)) = PROCESSING
       \<and> list_all finished (items (process_rejected (Inr (response es)) (process_start b)))
       \<and> items (process (Inr (response es)) now b) = map (item_resolution es) (items b)
       \<and> status (process (Inr (response es)) now b) = COMPLETED"
proof -
  from resolve_entries_response [OF assms, of es]
  have nothrow: "snd (resolve_entries (map response_entry es) (items b)) = False"
    and its: "map (\<lambda>item. if \<not> isComplete item then fail noResponseErr item else item)
                (fst (resolve_entries (map response_entry es) (items b)))
              = map (item_resolution es) (items b)"
    by simp_all
  obtain its' where re: "resolve_entries (map response_entry es) (items b) = (its', False)"
    using nothrow by (cases "resolve_entries (map response_entry es) (items b)") simp
  have try1: "fst (process_try (Inr (response es)) (process_start b))
              = (process_start b)\<lparr>items := fst (resolve_entries (map response_entry es) (items b))\<rparr>"
    by (simp add: process_try_def process_start_def re)
  have try2: "snd (process_try (Inr (response es)) (process_start b)) = COMPLETED"
    by (simp add: process_try_def process_start_def re)
  have r: "items (process_rejected (Inr (response es)) (process_start b)) = map (item_resolution es) (items b)"
    unfolding process_rejected_def try1 using its by (simp add: rejectIncompleteItems_def)
  have s: "status (process_rejected (Inr (response es)) (process_start b)) = PROCESSING"
    unfolding process_rejected_def try1 by (simp add: rejectIncompleteItems_def process_start_def)
  have f: "list_all finished (items (process_rejected (Inr (response es)) (process_start b)))"
    unfolding r by (simp add: list_all_iff item_resolution_finished)
  have p1: "items (process (Inr (response es)) now b) = map (item_resolution es) (items b)"
    using r by (simp add: process_def process_finish_def)
  have p2: "status (process (Inr (response es)) now b) = COMPLETED"
    using try2 by (simp add: process_def process_finish_def)
  from r s f p1 p2 show ?thesis by simp
qed

theorem process_partial_response_witness:
  "distinct (map item_id (items ((new_MessageBatch ''A'' 2 10 [DrainListener])
       \<lparr>items := [new_MessageBatchItem ''i1'' ''blob1'', new_MessageBatchItem ''i2'' ''blob2'']\<rparr>)))
   \<and> map item_promise (items (process (Inr (response [(''i2'', JStr ''decoded'')])) 7
       ((new_MessageBatch ''A'' 2 10 [DrainListener])
          \<lparr>items := [new_MessageBatchItem ''i1'' ''blob1'', new_MessageBatchItem ''i2'' ''blob2'']\<rparr>)))
     = [Rejected ''No response from Helper Service'', Resolved (Some (JStr ''decoded''))]
   \<and> status (process (Inr (response [(''i2'', JStr ''decoded'')])) 7
       ((new_MessageBatch ''A'' 2 10 [DrainListener])
          \<lparr>items := [new_MessageBatchItem ''i1'' ''blob1'', new_MessageBatchItem ''i2'' ''blob2'']\<rparr>))
     = COMPLETED"
proof -
  let ?b = "(new_MessageBatch ''A'' 2 10 [DrainListener])
       \<lparr>items := [new_MessageBatchItem ''i1'' ''blob1'', new_MessageBatchItem ''i2'' ''blob2'']\<rparr>"
  have h: "distinct (map item_id (items ?b))"
    by (simp add: new_MessageBatch_def new_MessageBatchItem_def)
  from process_partial_response [OF h, of "[(''i2'', JStr ''decoded'')]" 7]
  have "items (process (Inr (response [(''i2'', JStr ''decoded'')])) 7 ?b)
          = map (item_resolution [(''i2'', JStr ''decoded'')]) (items ?b)"
    and "status (process (Inr (response [(''i2'', JStr ''decoded'')])) 7 ?b) = COMPLETED"
    by simp_all
  with h show ?thesis
    by (simp add: new_MessageBatch_def new_MessageBatchItem_def item_resolution_def noResponseErr_def)
qed

section \<open>Properties of pruning\<close>

lemma pruneByAge_only_finished:
  "b \<in> set (batches (pruneByAge ms now d)) \<Longrightarrow> isBatchFinished b"
  by (simp add: pruneByAge_def)

lemma pruneByAge_drops_unfinished:
  "\<not> isBatchFinished b \<Longrightarrow> b \<notin> set (batches (pruneByAge ms now d))"
  by (simp add: pruneByAge_def)

lemma pruneByAge_subset: "set (batches (pruneByAge ms now d)) \<subseteq> set (batches d)"
  by (auto simp: pruneByAge_def)

lemma pruneByAge_config [simp]:
  "maxBatchCache (pruneByAge ms now d) = maxBatchCache d"
  "maxBatchSize (pruneByAge ms now d) = maxBatchSize d"
  "batchIntervalMs (pruneByAge ms now d) = batchIntervalMs d"
  by (simp_all add: pruneByAge_def)

lemma prune_tries_subset: "set (batches (prune_tries tries now d)) \<subseteq> set (batches d)"
proof (induction tries arbitrary: d)
  case Nil
  show ?case by simp
next
  case (Cons t ts)
  have "set (batches (prune_tries ts now (pruneByAge t now d))) \<subseteq> set (batches (pruneByAge t now d))"
    by (rule Cons.IH)
  then show ?case using pruneByAge_subset [of t now d]
    by (auto simp: Let_def)
qed

lemma prune_tries_only_finished:
  "tries \<noteq> [] \<Longrightarrow> b \<in> set (batches (prune_tries tries now d)) \<Longrightarrow> isBatchFinished b"
proof (cases tries)
  case Nil
  assume "tries \<noteq> []" with Nil show ?thesis by simp
next
  case (Cons t ts)
  assume mem: "b \<in> set (batches (prune_tries tries now d))"
  have "b \<in> set (batches (pruneByAge t now d))"
    using mem prune_tries_subset [of ts now "pruneByAge t now d"] Cons
    by (auto simp: Let_def split: if_splits)
  then show ?thesis by (rule pruneByAge_only_finished)
qed

lemma pruneBatches_only_finished:
  assumes "b \<in> set (batches (pruneBatches now d))"
  shows "isBatchFinished b"
proof -
  have ne: "[30000, 10000, 5000, 0::int] \<noteq> []" by simp
  from assms have "b \<in> set (batches (prune_tries [30000, 10000, 5000, 0] now d))"
    by (simp only: pruneBatches_def)
  with ne show ?thesis by (rule prune_tries_only_finished)
qed


text \<open>
  C1. The claim is that a prune pass keeps every batch that is not COMPLETED and not
  FAILED. The run below leaves the cache holding a COMPLETED batch and a FILLING batch
  whose single item is not terminal; the sleeping drain pass then wakes, finds no PENDING
  batch and a full cache, and prunes: the FILLING batch is gone (and so is the COMPLETED
  one, ten milliseconds old). \<^verbatim>\<open>filter\<close> keeps what its predicate accepts, and the
  predicate of \<^verbatim>\<open>pruneByAge\<close> accepts the batches its comment says to prune.
\<close>

theorem prune_discards_filling_batch:
  "map status (batches (batcher (run isEmpty_blob
      [EvAdd ''i1'' ''blob1'' ''A'' 0,
       EvAdd ''i2'' ''blob2'' ''A2'' 1,
       EvHelperReturn ''A'' (Inr (response [(''i1'', JStr ''x''), (''i2'', JStr ''y'')])) 3,
       EvAdd ''i3'' ''blob3'' ''B'' 5]
      (new_world (new_UnarchiverBatcher (Some 2) None (Some 2))))))
     = [COMPLETED, FILLING]
   \<and> map (map finished \<circ> items) (batches (batcher (run isEmpty_blob
      [EvAdd ''i1'' ''blob1'' ''A'' 0,
       EvAdd ''i2'' ''blob2'' ''A2'' 1,
       EvHelperReturn ''A'' (Inr (response [(''i1'', JStr ''x''), (''i2'', JStr ''y'')])) 3,
       EvAdd ''i3'' ''blob3'' ''B'' 5]
      (new_world (new_UnarchiverBatcher (Some 2) None (Some 2))))))
     = [[True, True], [False]]
   \<and> batches (batcher (run isEmpty_blob
      [EvAdd ''i1'' ''blob1'' ''A'' 0,
       EvAdd ''i2'' ''blob2'' ''A2'' 1,
       EvHelperReturn ''A'' (Inr (response [(''i1'', JStr ''x''), (''i2'', JStr ''y'')])) 3,
       EvAdd ''i3'' ''blob3'' ''B'' 5,
       EvIntervalElapsed 13]
      (new_world (new_UnarchiverBatcher (Some 2) None (Some 2))))) = []"
  by code_simp

section \<open>Properties of add\<close>

text \<open>
  C2. The claim is that \<^verbatim>\<open>add\<close> on a full cache prunes first and throws a capacity
  error when the cache stays full. With \<^verbatim>\<open>maxBatchCache = 1\<close> and one batch in flight
  the cache is full; the next \<^verbatim>\<open>add\<close> returns a batch, the first batch is still cached,
  and the item sits in a second batch.
\<close>

theorem add_at_ceiling_neither_prunes_nor_fails:
  "isFull (snd (add (Some (new_MessageBatchItem ''i1'' ''blob1'')) ''A'' 0
                  (new_UnarchiverBatcher (Some 1) None (Some 1))))
   \<and> fst (add (Some (new_MessageBatchItem ''i2'' ''blob2'')) ''B'' 5
        (snd (add (Some (new_MessageBatchItem ''i1'' ''blob1'')) ''A'' 0
                  (new_UnarchiverBatcher (Some 1) None (Some 1))))) = Some ''B''
   \<and> map (\<lambda>b. (batch_id b, status b, map item_id (items b)))
        (batches (snd (add (Some (new_MessageBatchItem ''i2'' ''blob2'')) ''B'' 5
           (snd (add (Some (new_MessageBatchItem ''i1'' ''blob1'')) ''A'' 0
                  (new_UnarchiverBatcher (Some 1) None (Some 1)))))))
     = [(''A'', PROCESSING, [''i1'']), (''B'', PENDING, [''i2''])]"
  by code_simp

text \<open>
  In every state, \<^verbatim>\<open>add\<close> of a message returns a batch and the cache does not shrink.
\<close>

lemma processNextBatch_length:
  "length (batches (processNextBatch False now d)) = length (batches d)"
  by (simp add: processNextBatch_def Let_def)

lemma run_listeners_length:
  "length (batches (run_listeners now ls d)) = length (batches d)"
  unfolding run_listeners_def
proof (induction ls arbitrary: d)
  case Nil
  show ?case by simp
next
  case (Cons l ls)
  have "length (batches (run_listener now l d)) = length (batches d)"
    by (cases l) (simp_all add: processNextBatch_length)
  with Cons.IH [of "run_listener now l d"] show ?case by simp
qed

lemma add_never_refuses:
  "fst (add (Some item) uuid now d) \<noteq> None
   \<and> length (batches d) \<le> length (batches (snd (add (Some item) uuid now d)))"
proof -
  obtain batch d1 where g: "getNextAvailableBatch uuid d = (batch, d1)"
    by (cases "getNextAvailableBatch uuid d")
  obtain batch' ls where a: "addItem item batch = (batch', ls)"
    by (cases "addItem item batch")
  have "length (batches d) \<le> length (batches d1)"
    using g by (auto simp: getNextAvailableBatch_def createNewBatch_def Let_def split: option.splits)
  then show ?thesis
    by (simp add: add_def g a run_listeners_length)
qed

text \<open>
  \<^verbatim>\<open>add\<close> of the earlier class does refuse: on a full cache that pruning leaves full it
  throws, and the items in the cache are among those that were there.
\<close>

lemma pruneByAge_items: "set (all_items (pruneByAge ms now d)) \<subseteq> set (all_items d)"
  by (auto simp: all_items_def pruneByAge_def)

lemma UnarchiveBatcher_prune_tries_items:
  "set (all_items (UnarchiveBatcher_prune_tries tries now d)) \<subseteq> set (all_items d)"
proof (induction tries arbitrary: d)
  case Nil
  show ?case by simp
next
  case (Cons t ts)
  from Cons.IH [of "pruneByAge t now d"] pruneByAge_items [of t now d]
  show ?case by (auto simp: Let_def)
qed

lemma UnarchiveBatcher_add_refuses:
  assumes "isFull d" and "isFull (UnarchiveBatcher_pruneBatches now d)"
  shows "UnarchiveBatcher_add message uuid now d = (Inl ''Batcher is full'', UnarchiveBatcher_pruneBatches now d)
       \<and> set (all_items (snd (UnarchiveBatcher_add message uuid now d))) \<subseteq> set (all_items d)"
  using assms UnarchiveBatcher_prune_tries_items [of "[30000, 10000, 5000, 0]" now d]
  by (simp add: UnarchiveBatcher_add_def UnarchiveBatcher_pruneBatches_def)

section \<open>Properties of the drain pass\<close>

text \<open>
  C4. The claim is that at most one batch is PROCESSING at any instant. Batch A completes
  and its drain pass sleeps for the inter-batch interval; meanwhile B becomes PENDING and
  is started, and C becomes PENDING and is held back; the sleeping pass wakes with
  \<^verbatim>\<open>wasProcessing = true\<close>, skips the \<^verbatim>\<open>isProcessing\<close> test and starts C while B is
  still with the helper.
\<close>

theorem two_batches_processing:
  "processing_count (batcher (run isEmpty_blob
      [EvAdd ''i1'' ''blob1'' ''A'' 0,
       EvHelperReturn ''A'' (Inr (response [(''i1'', JStr ''x'')])) 3,
       EvAdd ''i2'' ''blob2'' ''B'' 5,
       EvAdd ''i3'' ''blob3'' ''C'' 6,
       EvIntervalElapsed 13]
      (new_world (new_UnarchiverBatcher (Some 1) None None)))) = 2
   \<and> map (\<lambda>b. (batch_id b, status b)) (batches (batcher (run isEmpty_blob
      [EvAdd ''i1'' ''blob1'' ''A'' 0,
       EvHelperReturn ''A'' (Inr (response [(''i1'', JStr ''x'')])) 3,
       EvAdd ''i2'' ''blob2'' ''B'' 5,
       EvAdd ''i3'' ''blob3'' ''C'' 6,
       EvIntervalElapsed 13]
      (new_world (new_UnarchiverBatcher (Some 1) None None)))))
     = [(''A'', COMPLETED), (''B'', PROCESSING), (''C'', PROCESSING)]"
  by code_simp

text \<open>
  A continuation pass starts the next PENDING batch whatever else is in flight; a pass
  that is not a continuation does hold back.
\<close>

lemma start_pending_count:
  "list_ex (\<lambda>b. status b = PENDING) bs \<Longrightarrow>
   length (filter (\<lambda>b. status b = PROCESSING) (update_first (\<lambda>b. status b = PENDING) process_start bs))
     = Suc (length (filter (\<lambda>b. status b = PROCESSING) bs))"
  by (induction bs) (auto simp: process_start_def)

lemma continuation_starts_regardless:
  "getNextPendingBatch d \<noteq> None \<Longrightarrow>
   processing_count (processNextBatch True now d) = Suc (processing_count d)"
  by (simp add: processNextBatch_def Let_def processing_count_def getNextPendingBatch_def
      find_None_iff_ex start_pending_count del: update_first.simps)


lemma processNextBatch_waits:
  "isProcessing d \<Longrightarrow> processNextBatch False now d = d"
  by (simp add: processNextBatch_def)

section \<open>Readiness over the life of a dispatcher\<close>



lemma evolves_mono: "set calls \<subseteq> set calls' \<Longrightarrow> evolves calls x y \<Longrightarrow> evolves calls' x y"
  unfolding evolves_def by auto

lemma evolves_quiet:
  "batch_id y = batch_id x \<Longrightarrow> pendingListeners y = pendingListeners x \<or> pendingListeners y = [] \<Longrightarrow>
   timeout y = timeout x \<Longrightarrow> (status y = FILLING) = (status x = FILLING) \<Longrightarrow> evolves calls x y"
  unfolding evolves_def by auto






































text \<open>Every cached batch has the one listener that \<^verbatim>\<open>createNewBatch\<close> gave it.\<close>

lemma listeners_evolve:
  "list_all2 (\<lambda>x y. pendingListeners y = pendingListeners x) xs ys \<Longrightarrow>
   list_all (\<lambda>b. pendingListeners b = ls) xs \<Longrightarrow> list_all (\<lambda>b. pendingListeners b = ls) ys"
  by (induction xs ys rule: list_all2_induct) simp_all






lemma markReady_filling:
  "status b = FILLING \<Longrightarrow>
   markReadyForProcessing b = (b\<lparr>status := PENDING, timeout := False\<rparr>, pendingListeners b)"
  by (simp add: markReadyForProcessing_def)



section \<open>Consistency of the cache\<close>

lemma item_ok_new: "item_ok (new_MessageBatchItem uuid blob)"
  by (simp add: item_ok_def new_MessageBatchItem_def)

lemma item_ok_complete: "item_ok i \<Longrightarrow> item_ok (complete v i)"
  by (cases "item_promise i") (simp_all add: item_ok_def complete_def)

lemma item_ok_fail: "item_ok i \<Longrightarrow> item_ok (fail reason i)"
  by (cases "item_promise i") (simp_all add: item_ok_def fail_def)

lemma fail_flushed: "item_ok i \<Longrightarrow> fail default_flush_error i = flushed_item i"
  by (cases "item_promise i") (simp_all add: item_ok_def fail_def flushed_item_def)

lemma complete_found_ok: "list_all item_ok its \<Longrightarrow> list_all item_ok (complete_found k v its)"
  by (induction its) (simp_all add: item_ok_complete)

lemma resolve_entry_ok:
  "list_all item_ok its \<Longrightarrow> resolve_entry e its = Some its' \<Longrightarrow> list_all item_ok its'"
  by (cases e) (auto simp: complete_found_ok split: option.splits json.splits)

lemma resolve_entries_ok:
  "list_all item_ok its \<Longrightarrow> list_all item_ok (fst (resolve_entries es its))"
proof (induction es arbitrary: its)
  case Nil
  then show ?case by simp
next
  case (Cons e es)
  show ?case
  proof (cases "resolve_entry e its")
    case None
    with Cons.prems show ?thesis by simp
  next
    case (Some its')
    with Cons.prems have "list_all item_ok its'" by (rule resolve_entry_ok)
    from Cons.IH [OF this] Some show ?thesis by simp
  qed
qed

lemma process_try_ok:
  "list_all item_ok (items b) \<Longrightarrow> list_all item_ok (items (fst (process_try outcome b)))"
proof -
  assume ok: "list_all item_ok (items b)"
  show ?thesis
  proof (cases outcome)
    case (Inl ex)
    with ok show ?thesis by (simp add: process_try_def)
  next
    case (Inr result)
    show ?thesis
    proof (cases "data_entries result")
      case None
      with ok Inr show ?thesis by (simp add: process_try_def)
    next
      case (Some entries)
      from resolve_entries_ok [OF ok, of entries] Inr Some show ?thesis
        by (cases "resolve_entries entries (items b)") (simp add: process_try_def)
    qed
  qed
qed

lemma process_finish_ok:
  assumes "list_all item_ok (items b)"
  shows "batch_ok (process_finish outcome now b)"
proof -
  have "list_all item_ok (items (fst (process_try outcome b)))"
    using assms by (rule process_try_ok)
  then have "list_all item_ok (map (fail noResponseErr) (items (fst (process_try outcome b))))"
    by (simp add: list_all_iff item_ok_fail)
  moreover have "list_all finished (map (fail noResponseErr) (items (fst (process_try outcome b))))"
    by (simp add: list_all_iff fail_finished)
  ultimately show ?thesis
    by (simp add: batch_ok_def process_finish_def process_rejected_def rejectIncompleteItems_items)
qed

lemma batch_ok_start: "batch_ok b \<Longrightarrow> batch_ok (process_start b)"
  by (simp add: batch_ok_def process_start_def isBatchFinished_def)

lemma cache_ok_pruneByAge: "cache_ok d \<Longrightarrow> cache_ok (pruneByAge ms now d)"
  by (simp add: cache_ok_def pruneByAge_def list_all_iff)

lemma cache_ok_prune_tries: "cache_ok d \<Longrightarrow> cache_ok (prune_tries tries now d)"
  by (induction tries arbitrary: d) (simp_all add: Let_def cache_ok_pruneByAge)

lemma cache_ok_processNextBatch: "cache_ok d \<Longrightarrow> cache_ok (processNextBatch wp now d)"
proof -
  assume ok: "cache_ok d"
  have p: "cache_ok (pruneBatches now d)"
    unfolding pruneBatches_def using ok by (rule cache_ok_prune_tries)
  have "list_all batch_ok (update_first (\<lambda>b. status b = PENDING) process_start (batches d))"
  proof (rule update_first_all)
    show "list_all batch_ok (batches d)" using ok by (simp add: cache_ok_def)
  next
    fix x assume "x \<in> set (batches d)"
    with ok have "batch_ok x" by (simp add: cache_ok_def list_all_iff)
    then show "batch_ok (process_start x)" by (rule batch_ok_start)
  qed
  then have s: "cache_ok (d\<lparr>batches := update_first (\<lambda>b. status b = PENDING) process_start (batches d)\<rparr>)"
    by (simp add: cache_ok_def)
  show ?thesis
    unfolding processNextBatch_def Let_def using ok p s by (simp del: update_first.simps)
qed

lemma cache_ok_run_listeners: "cache_ok d \<Longrightarrow> cache_ok (run_listeners now ls d)"
  unfolding run_listeners_def
proof (induction ls arbitrary: d)
  case Nil
  then show ?case by simp
next
  case (Cons l ls)
  have "cache_ok (run_listener now l d)"
    using Cons.prems by (cases l) (simp_all add: cache_ok_processNextBatch)
  from Cons.IH [OF this] show ?case by simp
qed

lemma batch_ok_markReady: "batch_ok b \<Longrightarrow> batch_ok (fst (markReadyForProcessing b))"
  by (simp add: markReadyForProcessing_def batch_ok_def isBatchFinished_def)

lemma batch_ok_addItem:
  "batch_ok b \<Longrightarrow> status b = FILLING \<Longrightarrow> item_ok item \<Longrightarrow> batch_ok (fst (addItem item b))"
  by (simp add: addItem_def Let_def markReadyForProcessing_def batch_ok_def isBatchFinished_def)

lemma batch_ok_timeout_fires: "batch_ok b \<Longrightarrow> batch_ok (fst (timeout_fires b))"
  by (simp add: timeout_fires_def markReadyForProcessing_def batch_ok_def isBatchFinished_def)

lemma cache_ok_getNextAvailableBatch:
  assumes "cache_ok d"
  shows "cache_ok (snd (getNextAvailableBatch uuid d))
       \<and> batch_ok (fst (getNextAvailableBatch uuid d))
       \<and> status (fst (getNextAvailableBatch uuid d)) = FILLING"
proof (cases "find (\<lambda>b. status b = FILLING) (batches d)")
  case None
  then show ?thesis using assms
    by (simp add: getNextAvailableBatch_def createNewBatch_def Let_def cache_ok_def
        batch_ok_def new_MessageBatch_def isBatchFinished_def)
next
  case (Some b)
  from find_Some_props [OF Some] assms have "batch_ok b" "status b = FILLING"
    by (simp_all add: cache_ok_def list_all_iff)
  with Some assms show ?thesis by (simp add: getNextAvailableBatch_def)
qed

lemma cache_ok_add:
  assumes "cache_ok d" and "item_ok item"
  shows "cache_ok (snd (add (Some item) uuid now d))"
proof -
  obtain batch d1 where g: "getNextAvailableBatch uuid d = (batch, d1)"
    by (cases "getNextAvailableBatch uuid d")
  obtain batch' ls where a: "addItem item batch = (batch', ls)"
    by (cases "addItem item batch")
  from cache_ok_getNextAvailableBatch [OF assms(1), of uuid] g
  have d1: "cache_ok d1" and b: "batch_ok batch" "status batch = FILLING" by simp_all
  from batch_ok_addItem [OF b assms(2)] a have b': "batch_ok batch'" by simp
  have "cache_ok (d1\<lparr>batches := update_first (\<lambda>b. status b = FILLING) (\<lambda>_. batch') (batches d1)\<rparr>)"
    using d1 b' by (simp add: cache_ok_def update_first_all)
  then show ?thesis
    by (simp add: add_def g a cache_ok_run_listeners)
qed

lemma cache_ok_fill_deadline: "cache_ok d \<Longrightarrow> cache_ok (fill_deadline uuid now d)"
proof (cases "find (\<lambda>b. batch_id b = uuid \<and> timeout b) (batches d)")
  case None
  assume "cache_ok d"
  with None show ?thesis by (simp add: fill_deadline_def)
next
  case (Some b)
  assume ok: "cache_ok d"
  obtain b' ls where t: "timeout_fires b = (b', ls)" by (cases "timeout_fires b")
  from find_Some_props [OF Some] ok have "batch_ok b" by (simp add: cache_ok_def list_all_iff)
  from batch_ok_timeout_fires [OF this] t have "batch_ok b'" by simp
  with ok have "cache_ok (d\<lparr>batches := update_first (\<lambda>b. batch_id b = uuid \<and> timeout b) (\<lambda>_. b') (batches d)\<rparr>)"
    by (simp add: cache_ok_def update_first_all)
  then show ?thesis
    by (simp add: fill_deadline_def Some t cache_ok_run_listeners)
qed

lemma cache_ok_helper_returns: "cache_ok d \<Longrightarrow> cache_ok (helper_returns uuid outcome now d)"
proof -
  assume ok: "cache_ok d"
  have "list_all batch_ok (update_first (\<lambda>b. batch_id b = uuid \<and> status b = PROCESSING)
                             (process_finish outcome now) (batches d))"
  proof (rule update_first_all)
    show "list_all batch_ok (batches d)" using ok by (simp add: cache_ok_def)
  next
    fix x assume "x \<in> set (batches d)"
    with ok have "list_all item_ok (items x)" by (simp add: cache_ok_def batch_ok_def list_all_iff)
    then show "batch_ok (process_finish outcome now x)" by (rule process_finish_ok)
  qed
  then show ?thesis by (simp add: helper_returns_def cache_ok_def)
qed

lemma cache_ok_step: "cache_ok (batcher w) \<Longrightarrow> cache_ok (batcher (step isEmpty w ev))"
proof (cases ev)
  case (EvAdd item_uuid blob uuid now)
  assume "cache_ok (batcher w)"
  then show ?thesis using EvAdd by (simp add: cache_ok_add item_ok_new)
next
  case (EvFillDeadline uuid now)
  assume "cache_ok (batcher w)"
  then show ?thesis using EvFillDeadline
    by (simp add: cache_ok_fill_deadline orphan_deadline_def cache_ok_run_listeners
        split: option.splits prod.splits)
next
  case (EvHelperReturn uuid outcome now)
  assume "cache_ok (batcher w)"
  then show ?thesis using EvHelperReturn by (simp add: cache_ok_helper_returns)
next
  case (EvIntervalElapsed now)
  assume "cache_ok (batcher w)"
  then show ?thesis using EvIntervalElapsed
    by (simp add: cache_ok_processNextBatch split: nat.splits)
next
  case EvFlush
  then show ?thesis by (simp add: flush_def cache_ok_def)
qed

lemma cache_ok_run: "cache_ok (batcher w) \<Longrightarrow> cache_ok (batcher (run isEmpty evs w))"
  unfolding run_def
  by (induction evs arbitrary: w) (simp_all add: cache_ok_step)

text \<open>
  Every dispatcher built by the constructor and driven by any sequence of turns has a
  consistent cache.
\<close>

lemma cache_ok_reachable:
  "cache_ok (batcher (run isEmpty evs (new_world (new_UnarchiverBatcher cfgSize cfgInterval cfgCache))))"
  by (rule cache_ok_run) (simp add: cache_ok_def new_world_def new_UnarchiverBatcher_def)

section \<open>Properties of flush\<close>

lemma flush_batch_items:
  "batch_ok b \<Longrightarrow>
   items (if \<not> isBatchFinished b then batch_flush default_flush_error b else b) = map flushed_item (items b)"
proof -
  assume ok: "batch_ok b"
  then have f: "\<forall>i \<in> set (items b). fail default_flush_error i = flushed_item i"
    by (simp add: batch_ok_def list_all_iff fail_flushed)
  show ?thesis
  proof (cases "isBatchFinished b")
    case True
    with ok have "\<forall>i \<in> set (items b). flushed_item i = i"
      by (simp add: batch_ok_def list_all_iff flushed_item_def)
    then have "map flushed_item (items b) = items b" by (simp add: map_idI)
    with True show ?thesis by simp
  next
    case False
    then show ?thesis using f
      by (simp add: batch_flush_def removeAllPendingListeners_def rejectIncompleteItems_items)
  qed
qed

text \<open>
  On a dispatcher with a consistent cache, \<^verbatim>\<open>flush()\<close> leaves the cache empty; of the
  items of the cached batches, each one that was not terminal is now terminal with its
  promise rejected with the flush error, and each terminal one is unchanged.
\<close>

lemma flush_fails_cached_items:
  assumes "cache_ok d"
  shows "batches (fst (flush d)) = []
       \<and> concat (map items (snd (flush d))) = map flushed_item (all_items d)
       \<and> map batch_id (snd (flush d)) = map batch_id (batches d)"
proof -
  have "list_all batch_ok bs \<Longrightarrow>
        concat (map items (map (\<lambda>b. if \<not> isBatchFinished b then batch_flush default_flush_error b else b) bs))
        = map flushed_item (concat (map items bs))" for bs
    by (induction bs) (simp_all add: flush_batch_items del: if_not_P)
  with assms have "concat (map items (snd (flush d))) = map flushed_item (all_items d)"
    by (simp add: flush_def all_items_def cache_ok_def)
  moreover have "map batch_id (snd (flush d)) = map batch_id (batches d)"
    by (simp add: flush_def batch_flush_def removeAllPendingListeners_def rejectIncompleteItems_def)
  ultimately show ?thesis by (simp add: flush_def)
qed

text \<open>
  C7. The claim is that \<^verbatim>\<open>flush()\<close> fails every work item that is not terminal when it
  is called. In the run of C1 the prune pass has dropped batch B from the cache while its
  item i3 was not terminal. \<^verbatim>\<open>flush()\<close> walks the cache only: afterwards the cache is
  empty and i3 is still not terminal, its promise unsettled. When the timer of B fires
  later, B becomes PENDING and its listener finds no batch to process in the cache, so
  i3 stays as it is.
\<close>

theorem flush_misses_pruned_item:
  "batches (batcher (run isEmpty_blob
      [EvAdd ''i1'' ''blob1'' ''A'' 0,
       EvAdd ''i2'' ''blob2'' ''A2'' 1,
       EvHelperReturn ''A'' (Inr (response [(''i1'', JStr ''x''), (''i2'', JStr ''y'')])) 3,
       EvAdd ''i3'' ''blob3'' ''B'' 5,
       EvIntervalElapsed 13,
       EvFlush]
      (new_world (new_UnarchiverBatcher (Some 2) None (Some 2))))) = []
   \<and> map (\<lambda>b. (batch_id b, status b, map (\<lambda>i. (item_id i, finished i, item_promise i)) (items b)))
        (orphans (run isEmpty_blob
      [EvAdd ''i1'' ''blob1'' ''A'' 0,
       EvAdd ''i2'' ''blob2'' ''A2'' 1,
       EvHelperReturn ''A'' (Inr (response [(''i1'', JStr ''x''), (''i2'', JStr ''y'')])) 3,
       EvAdd ''i3'' ''blob3'' ''B'' 5,
       EvIntervalElapsed 13,
       EvFlush]
      (new_world (new_UnarchiverBatcher (Some 2) None (Some 2)))))
     = [(''A'', COMPLETED, [(''i1'', True, Resolved (Some (JStr ''x''))),
                            (''i2'', True, Resolved (Some (JStr ''y'')))]),
        (''B'', FILLING, [(''i3'', False, Unsettled)])]
   \<and> map (\<lambda>b. (batch_id b, status b, map (\<lambda>i. (item_id i, finished i, item_promise i)) (items b)))
        (objs (run isEmpty_blob
      [EvAdd ''i1'' ''blob1'' ''A'' 0,
       EvAdd ''i2'' ''blob2'' ''A2'' 1,
       EvHelperReturn ''A'' (Inr (response [(''i1'', JStr ''x''), (''i2'', JStr ''y'')])) 3,
       EvAdd ''i3'' ''blob3'' ''B'' 5,
       EvIntervalElapsed 13,
       EvFlush,
       EvFillDeadline ''B'' 15]
      (new_world (new_UnarchiverBatcher (Some 2) None (Some 2)))))
     = [(''A'', COMPLETED, [(''i1'', True, Resolved (Some (JStr ''x''))),
                            (''i2'', True, Resolved (Some (JStr ''y'')))]),
        (''B'', PENDING, [(''i3'', False, Unsettled)])]"
  by code_simp

section \<open>Properties of the stdout handlers\<close>

lemma update_first_task_ids:
  "map task_id (update_first P (task_resolve v) ts) = map task_id ts"
  by (induction ts) (simp_all add: task_resolve_def)

lemma resolve_record_keeps_entries:
  "map task_id (tasks (resolve_record pick msg s)) = map task_id (tasks s)"
  by (simp add: resolve_record_def update_first_task_ids split: option.splits json.splits)

lemma on_stdout_data_keeps_entries:
  "map task_id (tasks (on_stdout_data isEmpty parse output s)) = map task_id (tasks s)"
  by (simp add: on_stdout_data_def Let_def resolve_record_keeps_entries split: option.splits list.splits)

lemma on_stdout_data2_keeps_entries:
  "map task_id (tasks (on_stdout_data2 parse output s)) = map task_id (tasks s)"
  by (simp add: on_stdout_data2_def resolve_record_keeps_entries split: option.splits)

lemma sendMessage_timeout_keeps_entries:
  "map task_id (tasks (sendMessage_timeout uuid s)) = map task_id (tasks s)"
proof -
  have "map task_id (update_first P task_timeout ts) = map task_id ts" for P ts
    by (induction ts) (simp_all add: task_timeout_def task_reject_def)
  then show ?thesis by (simp add: sendMessage_timeout_def)
qed

text \<open>
  \<^verbatim>\<open>resolveTask\<close>, which the handlers do not call, does drop the entry.
\<close>

lemma resolveTask_removes: "uuid \<notin> task_id ` set (tasks (resolveTask uuid val s))"
  by (auto simp: resolveTask_def)

text \<open>
  C9. The claim is that a record whose id matches a task resolves the task with the
  record's data field and removes the entry, and that no entry stays after a timeout.
  One task is outstanding and its record arrives: either handler marks the task complete
  and leaves it in the list (the first resolves it with the whole record, the second with
  the data field); so does the timer of \<^verbatim>\<open>sendMessage\<close>.
\<close>

theorem stdout_record_leaves_entry:
  "tasks (on_stdout_data isEmpty_line parse_L1
            (''L1'' @ [newline])
            (createNewTask ''t1'' \<lparr>tasks = [], currentData = []\<rparr>))
     = [\<lparr>task_id = ''t1'', task_isComplete = True,
         task_promise = Resolved (Some (JObj [(''id'', JStr ''t1''), (''data'', JArr [])]))\<rparr>]
   \<and> tasks (on_stdout_data2 parse_L1 (''L1'' @ [newline])
            (createNewTask ''t1'' \<lparr>tasks = [], currentData = []\<rparr>))
     = [\<lparr>task_id = ''t1'', task_isComplete = True, task_promise = Resolved (Some (JArr []))\<rparr>]
   \<and> tasks (sendMessage_timeout ''t1'' (createNewTask ''t1'' \<lparr>tasks = [], currentData = []\<rparr>))
     = [\<lparr>task_id = ''t1'', task_isComplete = True, task_promise = Rejected ''Task timed out''\<rparr>]"
  by code_simp

section \<open>Properties of bulkDeserializeAttributedBody\<close>

lemma resolve_entry_None: "resolve_entry e its = None \<longleftrightarrow> e = JNull"
  by (cases e) (simp_all split: option.splits json.splits)

lemma resolve_entries_threw: "snd (resolve_entries es its) = (JNull \<in> set es)"
proof (induction es arbitrary: its)
  case Nil
  show ?case by simp
next
  case (Cons e es)
  show ?case
  proof (cases "resolve_entry e its")
    case None
    then have "e = JNull" by (simp add: resolve_entry_None)
    with None show ?thesis by simp
  next
    case (Some its')
    then have "e \<noteq> JNull" using resolve_entry_None [of e its] by auto
    with Some Cons.IH [of its'] show ?thesis by auto
  qed
qed

lemma process_status:
  "status (process (Inr result) now b) = (if iterates_cleanly result then COMPLETED else FAILED)"
proof (cases "data_entries result")
  case None
  then show ?thesis
    by (simp add: process_def process_finish_def process_try_def iterates_cleanly_def)
next
  case (Some es)
  obtain its threw where r: "resolve_entries es (items (process_start b)) = (its, threw)"
    by (cases "resolve_entries es (items (process_start b))")
  with resolve_entries_threw [of es "items (process_start b)"] have "threw = (JNull \<in> set es)" by simp
  with Some r show ?thesis
    by (simp add: process_def process_finish_def process_try_def iterates_cleanly_def)
qed

lemma process_all_finished: "list_all finished (items (process outcome now b))"
  by (simp add: process_def process_finish_def process_rejected_def rejectIncompleteItems_items
      list_all_iff fail_finished)

lemma process_null:
  "items (process (Inr JNull) now b) = map (fail noResponseErr) (items b)"
  by (simp add: process_def process_finish_def process_rejected_def process_try_def
      process_start_def data_entries_def rejectIncompleteItems_items)

text \<open>
  C10, as the code has it. \<^verbatim>\<open>bulkDeserializeAttributedBody\<close> never throws, and returns
  \<^verbatim>\<open>null\<close> when a statement of its \<^verbatim>\<open>try\<close> block throws; a batch processed through
  it then ends COMPLETED with every non-terminal item failed as no-response. Whatever the
  service returns, the batch ends COMPLETED exactly when the loop of \<^verbatim>\<open>process()\<close> walks
  the value without an exception, and FAILED otherwise; all items end terminal.
\<close>

theorem service_never_throws:
  "bulkDeserializeAttributedBody env bodies \<noteq> Inl ex
   \<and> (bulk_try env bodies = Inl ex' \<longrightarrow> bulkDeserializeAttributedBody env bodies = Inr JNull)
   \<and> (bulk_try env (items b) = Inl ex' \<longrightarrow>
        status (process_with_service env now b) = COMPLETED
        \<and> items (process_with_service env now b) = map (fail noResponseErr) (items b))
   \<and> (bulkDeserializeAttributedBody env (items b) = Inr result \<longrightarrow>
        status (process_with_service env now b) = (if iterates_cleanly result then COMPLETED else FAILED))
   \<and> list_all finished (items (process_with_service env now b))"
proof -
  have 1: "bulkDeserializeAttributedBody env bodies \<noteq> Inl ex"
    by (simp add: bulkDeserializeAttributedBody_def split: sum.splits)
  have 2: "bulk_try env bodies = Inl ex' \<longrightarrow> bulkDeserializeAttributedBody env bodies = Inr JNull"
    by (simp add: bulkDeserializeAttributedBody_def)
  have 3: "bulk_try env (items b) = Inl ex' \<longrightarrow>
        status (process_with_service env now b) = COMPLETED
        \<and> items (process_with_service env now b) = map (fail noResponseErr) (items b)"
    by (simp add: bulkDeserializeAttributedBody_def process_with_service_def process_status
        process_null iterates_cleanly_def data_entries_def)
  have 4: "bulkDeserializeAttributedBody env (items b) = Inr result \<longrightarrow>
        status (process_with_service env now b) = (if iterates_cleanly result then COMPLETED else FAILED)"
    by (simp add: process_with_service_def process_status)
  have 5: "list_all finished (items (process_with_service env now b))"
    unfolding process_with_service_def by (rule process_all_finished)
  from 1 2 3 4 5 show ?thesis by blast
qed

theorem service_never_throws_witness:
  "bulk_try broken_env [new_MessageBatchItem ''i1'' ''blob1''] = Inl ''ENOENT''
   \<and> bulkDeserializeAttributedBody broken_env [new_MessageBatchItem ''i1'' ''blob1''] = Inr JNull
   \<and> status (process_with_service broken_env 7
        ((new_MessageBatch ''A'' 2 10 [DrainListener])\<lparr>items := [new_MessageBatchItem ''i1'' ''blob1'']\<rparr>))
      = COMPLETED
   \<and> map item_promise (items (process_with_service broken_env 7
        ((new_MessageBatch ''A'' 2 10 [DrainListener])\<lparr>items := [new_MessageBatchItem ''i1'' ''blob1'']\<rparr>)))
      = [Rejected ''No response from Helper Service'']"
proof -
  let ?b = "(new_MessageBatch ''A'' 2 10 [DrainListener])\<lparr>items := [new_MessageBatchItem ''i1'' ''blob1'']\<rparr>"
  have h: "bulk_try broken_env [new_MessageBatchItem ''i1'' ''blob1''] = Inl ''ENOENT''"
    by code_simp
  have hb: "bulk_try broken_env (items ?b) = Inl ''ENOENT''"
    using h by simp
  have e: "map item_promise (map (fail noResponseErr) (items ?b)) = [Rejected ''No response from Helper Service'']"
    by code_simp
  from service_never_throws [of broken_env "[new_MessageBatchItem ''i1'' ''blob1'']" _ "''ENOENT''" ?b 7] h hb
  have 1: "bulkDeserializeAttributedBody broken_env [new_MessageBatchItem ''i1'' ''blob1''] = Inr JNull"
    and 2: "status (process_with_service broken_env 7 ?b) = COMPLETED"
    and 3: "items (process_with_service broken_env 7 ?b) = map (fail noResponseErr) (items ?b)"
    by blast+
  show ?thesis
    unfolding 1 2 3 e using h by simp
qed

text \<open>
  The claim C10 says that through this service the \<^verbatim>\<open>catch\<close> branch of \<^verbatim>\<open>process()\<close>
  cannot run and the batch always ends COMPLETED. Here the helper prints an object whose
  data field is an object, not a list: the service returns it, \<^verbatim>\<open>for ... of\<close> over a
  plain object throws, and the batch ends FAILED.
\<close>

theorem service_batch_failed_counterexample:
  "bulkDeserializeAttributedBody keyed_env [new_MessageBatchItem ''i1'' ''blob1'']
     = Inr (JObj [(''data'', JObj [(''i1'', JStr ''decoded'')])])
   \<and> status (process_with_service keyed_env 7
       ((new_MessageBatch ''A'' 2 10 [DrainListener])\<lparr>items := [new_MessageBatchItem ''i1'' ''blob1'']\<rparr>))
     = FAILED"
  by code_simp

section \<open>A decode call that fails\<close>

lemma process_not_iterable:
  "data_entries result = None \<Longrightarrow>
   items (process (Inr result) now b) = map (fail noResponseErr) (items b)"
  by (simp add: process_def process_finish_def process_rejected_def process_try_def
      process_start_def rejectIncompleteItems_items)

lemma process_completedAt: "completedAt (process outcome now b) = Some now"
  by (simp add: process_def process_finish_def)

text \<open>
  The claim C8 says that a batch whose decode call fails ends FAILED with every item
  failed with the underlying cause. Here the helper prints text that \<^verbatim>\<open>JSON.parse\<close>
  rejects: the service catches the SyntaxError and returns \<^verbatim>\<open>null\<close>, the batch ends
  COMPLETED, and its item is rejected with the no-response message.
\<close>

theorem service_failure_counterexample:
  "bulk_try garbled_env [new_MessageBatchItem ''i1'' ''blob1''] = Inl ''SyntaxError''
   \<and> status (process_with_service garbled_env 7
       ((new_MessageBatch ''A'' 2 10 [DrainListener])\<lparr>items := [new_MessageBatchItem ''i1'' ''blob1'']\<rparr>))
     = COMPLETED
   \<and> status (process_with_service garbled_env 7
       ((new_MessageBatch ''A'' 2 10 [DrainListener])\<lparr>items := [new_MessageBatchItem ''i1'' ''blob1'']\<rparr>))
     \<noteq> FAILED
   \<and> map item_promise (items (process_with_service garbled_env 7
       ((new_MessageBatch ''A'' 2 10 [DrainListener])\<lparr>items := [new_MessageBatchItem ''i1'' ''blob1'']\<rparr>)))
     = [Rejected ''No response from Helper Service'']
   \<and> map item_promise (items (process_with_service garbled_env 7
       ((new_MessageBatch ''A'' 2 10 [DrainListener])\<lparr>items := [new_MessageBatchItem ''i1'' ''blob1'']\<rparr>)))
     \<noteq> [Rejected ''SyntaxError'']"
  by code_simp

text \<open>
  C8, as the code has it. When a statement of the service's \<^verbatim>\<open>try\<close> block throws
  (serialization, shell execution, JSON parse), the batch ends COMPLETED. When the service
  returns a value whose data cannot be iterated, the loop of \<^verbatim>\<open>process()\<close> throws and the
  batch ends FAILED. In both cases the completion time is set and every item that was not
  terminal is failed with the no-response error, not with the cause; terminal items keep
  their outcome.
\<close>

theorem service_failure_outcome:
  "(bulk_try env (items b) = Inl ex \<longrightarrow>
      status (process_with_service env now b) = COMPLETED
      \<and> completedAt (process_with_service env now b) = Some now
      \<and> items (process_with_service env now b) = map (fail noResponseErr) (items b))
   \<and> (bulk_try env (items b) = Inr result \<and> data_entries result = None \<longrightarrow>
      status (process_with_service env now b) = FAILED
      \<and> completedAt (process_with_service env now b) = Some now
      \<and> items (process_with_service env now b) = map (fail noResponseErr) (items b))"
proof -
  have 1: "bulk_try env (items b) = Inl ex \<longrightarrow>
      status (process_with_service env now b) = COMPLETED
      \<and> completedAt (process_with_service env now b) = Some now
      \<and> items (process_with_service env now b) = map (fail noResponseErr) (items b)"
    by (simp add: bulkDeserializeAttributedBody_def process_with_service_def process_status
        process_null process_completedAt iterates_cleanly_def data_entries_def)
  have 2: "bulk_try env (items b) = Inr result \<and> data_entries result = None \<longrightarrow>
      status (process_with_service env now b) = FAILED
      \<and> completedAt (process_with_service env now b) = Some now
      \<and> items (process_with_service env now b) = map (fail noResponseErr) (items b)"
    by (simp add: bulkDeserializeAttributedBody_def process_with_service_def process_status
        process_not_iterable process_completedAt iterates_cleanly_def)
  from 1 2 show ?thesis by (rule conjI)
qed

theorem service_failure_outcome_witness:
  "bulk_try broken_env (items ((new_MessageBatch ''A'' 2 10 [DrainListener])
       \<lparr>items := [new_MessageBatchItem ''i1'' ''blob1'']\<rparr>)) = Inl ''ENOENT''
   \<and> status (process_with_service broken_env 7
       ((new_MessageBatch ''A'' 2 10 [DrainListener])\<lparr>items := [new_MessageBatchItem ''i1'' ''blob1'']\<rparr>))
     = COMPLETED
   \<and> bulk_try keyed_env (items ((new_MessageBatch ''A'' 2 10 [DrainListener])
       \<lparr>items := [new_MessageBatchItem ''i1'' ''blob1'']\<rparr>))
     = Inr (JObj [(''data'', JObj [(''i1'', JStr ''decoded'')])])
   \<and> data_entries (JObj [(''data'', JObj [(''i1'', JStr ''decoded'')])]) = None
   \<and> status (process_with_service keyed_env 7
       ((new_MessageBatch ''A'' 2 10 [DrainListener])\<lparr>items := [new_MessageBatchItem ''i1'' ''blob1'']\<rparr>))
     = FAILED
   \<and> map item_promise (items (process_with_service keyed_env 7
       ((new_MessageBatch ''A'' 2 10 [DrainListener])\<lparr>items := [new_MessageBatchItem ''i1'' ''blob1'']\<rparr>)))
     = [Rejected ''No response from Helper Service'']"
proof -
  let ?b = "(new_MessageBatch ''A'' 2 10 [DrainListener])\<lparr>items := [new_MessageBatchItem ''i1'' ''blob1'']\<rparr>"
  let ?r = "JObj [(''data'', JObj [(''i1'', JStr ''decoded'')])]"
  have h1: "bulk_try broken_env (items ?b) = Inl ''ENOENT''" by code_simp
  have h2: "bulk_try keyed_env (items ?b) = Inr ?r" by code_simp
  have h3: "data_entries ?r = None" by code_simp
  have e: "map item_promise (map (fail noResponseErr) (items ?b)) = [Rejected ''No response from Helper Service'']"
    by code_simp
  from service_failure_outcome [of broken_env ?b "''ENOENT''" 7] h1
  have 1: "status (process_with_service broken_env 7 ?b) = COMPLETED" by blast
  from service_failure_outcome [of keyed_env ?b _ 7 ?r] h2 h3
  have 2: "status (process_with_service keyed_env 7 ?b) = FAILED"
    and 3: "items (process_with_service keyed_env 7 ?b) = map (fail noResponseErr) (items ?b)"
    by blast+
  show ?thesis
    unfolding 1 2 3 e using h1 h2 h3 by (intro conjI) simp_all
qed

end
